theory Spec2Isabelle
  imports Main "HOL-Library.Word" "HOL-Library.Sublist" "HOL-Library.Multiset"
begin

section \<open>The aapt2 post-processing configuration parser (ConfigurationParser.cpp)\<close>

text \<open>
  A shallow embedding of \<^verbatim>\<open>tools/aapt2/configuration/ConfigurationParser.cpp\<close>.
  C++ values become HOL values: \<^verbatim>\<open>std::string\<close> is \<open>string\<close>, \<^verbatim>\<open>Maybe<T>\<close> is
  \<open>'a option\<close>, \<^verbatim>\<open>std::vector<T>\<close> is \<open>'a list\<close>, an \<^verbatim>\<open>unordered_map\<close> keyed by
  label is a map \<open>string \<rightharpoonup> 'a\<close>, and \<^verbatim>\<open>int\<close> is a 32-bit word read as signed. The
  diagnostics sink is a list of messages in the order they were logged; every function that
  receives \<^verbatim>\<open>IDiagnostics* diag\<close> returns the messages it logged. A C++ exception that
  leaves a function is the \<open>Inl\<close> branch of a sum.
\<close>

subsection \<open>Diagnostics\<close>

datatype Level = Note | Warn | Error

text \<open>A logged message: its level, the source a \<^verbatim>\<open>SourcePathDiagnostics\<close> attached
  to it (if any), and the text streamed into the \<^verbatim>\<open>DiagMessage\<close>.\<close>

datatype DiagMessage =
  DiagMessage (diag_level: Level) (diag_source: "string option") (diag_text: string)

abbreviation diag_Error :: "string \<Rightarrow> DiagMessage" where
  "diag_Error s \<equiv> DiagMessage Error None s"

abbreviation diag_Note :: "string \<Rightarrow> DiagMessage" where
  "diag_Note s \<equiv> DiagMessage Note None s"

abbreviation src_diag_Error :: "string \<Rightarrow> string \<Rightarrow> DiagMessage" where
  "src_diag_Error src s \<equiv> DiagMessage Error (Some src) s"

subsection \<open>The data model (ConfigurationParser.h, as this file uses it)\<close>

datatype Abi = kArmeV6 | kArmV7a | kArm64V8a | kX86 | kX86_64 | kMips | kMips64 | kUniversal

text \<open>\<^verbatim>\<open>GlTexture\<close>: a name and its texture paths (field \<^verbatim>\<open>name\<close> is \<open>gl_name\<close> here,
  since record fields share one name space).\<close>

record GlTexture =
  gl_name :: string
  texture_paths :: "string list"

record AndroidSdk =
  min_sdk_version :: "int option"
  target_sdk_version :: "int option"
  max_sdk_version :: "int option"
  manifest :: "unit option"

text \<open>The C++ \<^verbatim>\<open>int\<close>: 32 bits, read as two's complement by \<open>sint\<close>.\<close>

type_synonym int32 = "32 word"

text \<open>\<^verbatim>\<open>ConfiguredArtifact\<close>: an artifact as declared, before its group references are
  resolved.\<close>

record ConfiguredArtifact =
  name :: "string option"
  version :: int32
  abi_group :: "string option"
  screen_density_group :: "string option"
  locale_group :: "string option"
  android_sdk_group :: "string option"
  gl_texture_group :: "string option"
  device_feature_group :: "string option"

text \<open>\<^verbatim>\<open>PostProcessingConfiguration\<close>. The type \<open>'q\<close> stands for
  \<^verbatim>\<open>ConfigDescription\<close>, the qualifier value of the density and locale groups, which
  this file only stores and copies.\<close>

record 'q PostProcessingConfiguration =
  artifacts :: "ConfiguredArtifact list"
  artifact_format :: "string option"
  abi_groups :: "string \<rightharpoonup> Abi list"
  screen_density_groups :: "string \<rightharpoonup> 'q list"
  locale_groups :: "string \<rightharpoonup> 'q list"
  android_sdk_groups :: "string \<rightharpoonup> AndroidSdk"
  gl_texture_groups :: "string \<rightharpoonup> GlTexture list"
  device_feature_groups :: "string \<rightharpoonup> string list"

text \<open>\<^verbatim>\<open>OutputArtifact\<close> (field \<^verbatim>\<open>name\<close> is \<open>out_name\<close> here).\<close>

record 'q OutputArtifact =
  out_name :: string
  abis :: "Abi list"
  screen_densities :: "'q list"
  locales :: "'q list"
  android_sdk :: "AndroidSdk option"
  features :: "string list"
  textures :: "GlTexture list"

subsection \<open>Strings\<close>

text \<open>\<^verbatim>\<open>std::string::find\<close> from position 0: the first index at which the pattern
  occurs, \<open>None\<close> for \<^verbatim>\<open>npos\<close>.\<close>

fun str_find :: "string \<Rightarrow> string \<Rightarrow> nat option" where
  "str_find p [] = (if p = [] then Some 0 else None)"
| "str_find p (c # cs) =
     (if prefix p (c # cs) then Some 0 else map_option Suc (str_find p cs))"

text \<open>\<^verbatim>\<open>std::string::rfind\<close>: the last index at which the pattern occurs.\<close>

fun str_rfind :: "string \<Rightarrow> string \<Rightarrow> nat option" where
  "str_rfind p [] = (if p = [] then Some 0 else None)"
| "str_rfind p (c # cs) =
     (case str_rfind p cs of
        Some i \<Rightarrow> Some (Suc i)
      | None \<Rightarrow> if prefix p (c # cs) then Some 0 else None)"

text \<open>\<^verbatim>\<open>name->replace(offset, len, value)\<close>.\<close>

definition str_replace :: "string \<Rightarrow> nat \<Rightarrow> nat \<Rightarrow> string \<Rightarrow> string" where
  "str_replace s offset len v = take offset s @ v @ drop (offset + len) s"

text \<open>Modelled from the spec: \<^verbatim>\<open>file::GetFilename\<close> and \<^verbatim>\<open>file::GetExtension\<close>
  (util/Files) are not under src/. The spec speaks of "the input file name", of its extension
  with "its leading separator", and of the base name as the "text preceding its extension";
  here the file name is what follows the last directory separator and the extension runs
  from the first dot of the file name to its end (empty when there is no dot).\<close>

definition GetFilename :: "string \<Rightarrow> string" where
  "GetFilename path = rev (takeWhile (\<lambda>c. c \<noteq> CHR ''/'') (rev path))"

definition GetExtension :: "string \<Rightarrow> string" where
  "GetExtension path = dropWhile (\<lambda>c. c \<noteq> CHR ''.'') (GetFilename path)"

subsection \<open>Copying group references\<close>

text \<open>\<^verbatim>\<open>CopyXmlReferences\<close>: the result and the target list after the call. The loop
  pushes the group's items one by one.\<close>

definition CopyXmlReferences ::
  "string option \<Rightarrow> (string \<rightharpoonup> 'a list) \<Rightarrow> 'a list \<Rightarrow> bool \<times> 'a list" where
  "CopyXmlReferences nm groups target =
     (case nm of
        None \<Rightarrow> (True, target)
      | Some n \<Rightarrow>
          (case groups n of
             None \<Rightarrow> (False, target)
           | Some items \<Rightarrow> (True, foldl (\<lambda>t item. t @ [item]) target items)))"

subsection \<open>Placeholders\<close>

text \<open>\<^verbatim>\<open>ReplacePlaceholder\<close>: the result, the name string after the call, and the
  messages logged.\<close>

definition ReplacePlaceholder ::
  "string \<Rightarrow> string option \<Rightarrow> string \<Rightarrow> bool \<times> string \<times> DiagMessage list" where
  "ReplacePlaceholder placeholder v nm =
     (case str_find placeholder nm of
        None \<Rightarrow>
          (case v of
             Some _ \<Rightarrow> (False, nm, [diag_Error (''Missing placeholder for artifact: '' @ placeholder)])
           | None \<Rightarrow> (True, nm, []))
      | Some offset \<Rightarrow>
          (case v of
             None \<Rightarrow>
               (False, nm,
                [diag_Error (''Placeholder present but no value for artifact: '' @ placeholder)])
           | Some val \<Rightarrow>
               (let nm' = str_replace nm offset (length placeholder) val
                in if str_find placeholder nm' \<noteq> None
                   then (False, nm',
                         [diag_Error (''Placeholder present multiple times: '' @ placeholder)])
                   else (True, nm', []))))"

text \<open>\<^verbatim>\<open>ToBaseName\<close>. \<^verbatim>\<open>util::EndsWith\<close> is \<open>suffix\<close>, and
  \<^verbatim>\<open>ext.substr(1)\<close> drops the leading dot of the extension (\<^verbatim>\<open>StringPiece\<close> is not
  under src/; for an input name without extension the model takes the empty string).\<close>

definition ToBaseName :: "string \<Rightarrow> string \<Rightarrow> string option \<times> DiagMessage list" where
  "ToBaseName result apk_name =
     (let ext = GetExtension apk_name;
          base_name = (case str_rfind ext apk_name of
                         Some end_index \<Rightarrow> take end_index apk_name
                       | None \<Rightarrow> '''');
          (ok1, result1, diag1) =
            (if str_find ''${basename}'' result \<noteq> None
             then ReplacePlaceholder ''${basename}''
                    (if base_name = [] then None else Some base_name) result
             else (True, result, []))
      in if \<not> ok1 then (None, diag1)
         else if str_find ''${ext}'' result1 \<noteq> None
         then (case ReplacePlaceholder ''${ext}'' (Some (drop 1 ext)) result1 of
                 (ok2, result2, diag2) \<Rightarrow>
                   if \<not> ok2 then (None, diag1 @ diag2) else (Some result2, diag1 @ diag2))
         else (Some (if suffix ext result1 then result1 else result1 @ ext), diag1))"

text \<open>\<^verbatim>\<open>ConfiguredArtifact::ToArtifactName\<close>: the base name, then the six axis
  placeholders in the order abi, density, locale, sdk, feature, gl; the first failure
  returns.\<close>

definition ToArtifactName ::
  "ConfiguredArtifact \<Rightarrow> string \<Rightarrow> string \<Rightarrow> string option \<times> DiagMessage list" where
  "ToArtifactName artifact format apk_name =
     (case ToBaseName format apk_name of
        (None, d0) \<Rightarrow> (None, d0)
      | (Some r0, d0) \<Rightarrow>
     (case ReplacePlaceholder ''${abi}'' (abi_group artifact) r0 of (ok1, r1, d1) \<Rightarrow>
        if \<not> ok1 then (None, d0 @ d1) else
     (case ReplacePlaceholder ''${density}'' (screen_density_group artifact) r1 of (ok2, r2, d2) \<Rightarrow>
        if \<not> ok2 then (None, d0 @ d1 @ d2) else
     (case ReplacePlaceholder ''${locale}'' (locale_group artifact) r2 of (ok3, r3, d3) \<Rightarrow>
        if \<not> ok3 then (None, d0 @ d1 @ d2 @ d3) else
     (case ReplacePlaceholder ''${sdk}'' (android_sdk_group artifact) r3 of (ok4, r4, d4) \<Rightarrow>
        if \<not> ok4 then (None, d0 @ d1 @ d2 @ d3 @ d4) else
     (case ReplacePlaceholder ''${feature}'' (device_feature_group artifact) r4 of (ok5, r5, d5) \<Rightarrow>
        if \<not> ok5 then (None, d0 @ d1 @ d2 @ d3 @ d4 @ d5) else
     (case ReplacePlaceholder ''${gl}'' (gl_texture_group artifact) r5 of (ok6, r6, d6) \<Rightarrow>
        if \<not> ok6 then (None, d0 @ d1 @ d2 @ d3 @ d4 @ d5 @ d6)
        else (Some r6, d0 @ d1 @ d2 @ d3 @ d4 @ d5 @ d6))))))))"

text \<open>\<^verbatim>\<open>ConfiguredArtifact::Name\<close>: the artifact's own name only goes through
  \<open>ToBaseName\<close>.\<close>

definition Name :: "ConfiguredArtifact \<Rightarrow> string \<Rightarrow> string option \<times> DiagMessage list" where
  "Name artifact apk_name =
     (case name artifact of
        None \<Rightarrow> (None, [])
      | Some n \<Rightarrow> ToBaseName n apk_name)"

subsection \<open>Resolving one artifact\<close>

text \<open>\<^verbatim>\<open>ToOutputArtifact\<close>. The five list axes are copied by \<open>CopyXmlReferences\<close> into
  the empty lists of a fresh \<^verbatim>\<open>OutputArtifact\<close>; the SDK reference is looked up as a
  single entry. Every failed lookup logs its own error and sets \<^verbatim>\<open>has_errors\<close>.\<close>

definition lookup_error :: "bool \<Rightarrow> string \<Rightarrow> string \<Rightarrow> string option \<Rightarrow> DiagMessage list" where
  "lookup_error ok src what nm =
     (if ok then [] else [src_diag_Error src (what @ (case nm of Some n \<Rightarrow> n | None \<Rightarrow> ''''))])"

definition ToOutputArtifact ::
  "ConfiguredArtifact \<Rightarrow> string \<Rightarrow> 'q PostProcessingConfiguration
     \<Rightarrow> 'q OutputArtifact option \<times> DiagMessage list" where
  "ToOutputArtifact artifact apk_name config =
     (case (name artifact, artifact_format config) of
        (None, None) \<Rightarrow>
          (None, [diag_Error ''Artifact does not have a name and no global name template defined''])
      | (nm, fmt) \<Rightarrow>
     (case (case nm of Some _ \<Rightarrow> Name artifact apk_name
                     | None \<Rightarrow> ToArtifactName artifact (case fmt of Some f \<Rightarrow> f | None \<Rightarrow> '''') apk_name) of
        (None, d0) \<Rightarrow> (None, d0 @ [diag_Error ''Could not determine split APK artifact name''])
      | (Some artifact_name, d0) \<Rightarrow>
          (let (ok1, abis') = CopyXmlReferences (abi_group artifact) (abi_groups config) [];
               d1 = lookup_error ok1 artifact_name ''Could not lookup required ABIs: '' (abi_group artifact);
               (ok2, locales') = CopyXmlReferences (locale_group artifact) (locale_groups config) [];
               d2 = lookup_error ok2 artifact_name ''Could not lookup required locales: ''
                      (locale_group artifact);
               (ok3, densities') = CopyXmlReferences (screen_density_group artifact)
                                     (screen_density_groups config) [];
               d3 = lookup_error ok3 artifact_name ''Could not lookup required screen densities: ''
                      (screen_density_group artifact);
               (ok4, features') = CopyXmlReferences (device_feature_group artifact)
                                    (device_feature_groups config) [];
               d4 = lookup_error ok4 artifact_name ''Could not lookup required device features: ''
                      (device_feature_group artifact);
               (ok5, textures') = CopyXmlReferences (gl_texture_group artifact)
                                    (gl_texture_groups config) [];
               d5 = lookup_error ok5 artifact_name
                      ''Could not lookup required OpenGL texture formats: '' (gl_texture_group artifact);
               (ok6, sdk') =
                 (case android_sdk_group artifact of
                    None \<Rightarrow> (True, None)
                  | Some l \<Rightarrow>
                      (case android_sdk_groups config l of
                         None \<Rightarrow> (False, None)
                       | Some entry \<Rightarrow> (True, Some entry)));
               d6 = lookup_error ok6 artifact_name
                      ''Could not lookup required Android SDK version: '' (android_sdk_group artifact);
               has_errors = (\<not> ok1 \<or> \<not> ok2 \<or> \<not> ok3 \<or> \<not> ok4 \<or> \<not> ok5 \<or> \<not> ok6);
               diag = d0 @ d1 @ d2 @ d3 @ d4 @ d5 @ d6
           in if has_errors then (None, diag)
              else (Some \<lparr>out_name = artifact_name, abis = abis', screen_densities = densities',
                          locales = locales', android_sdk = sdk', features = features',
                          textures = textures'\<rparr>, diag))))"

subsection \<open>Resolving the whole configuration\<close>

text \<open>Modelled from the spec: \<^verbatim>\<open>ConfiguredArtifact::operator<\<close> and
  \<^verbatim>\<open>operator==\<close> (ConfigurationParser.h) are not under src/. The spec has the resolver
  "sort a copy of the templates by version ascending and check for adjacent duplicates"
  and says that "after sorting by version, no two templates may share a version": artifacts
  are ordered, and equal, by version.\<close>

definition artifact_less :: "ConfiguredArtifact \<Rightarrow> ConfiguredArtifact \<Rightarrow> bool" where
  "artifact_less a b = (sint (version a) < sint (version b))"

definition artifact_eq :: "ConfiguredArtifact \<Rightarrow> ConfiguredArtifact \<Rightarrow> bool" where
  "artifact_eq a b = (version a = version b)"

text \<open>\<^verbatim>\<open>std::sort\<close> with \<open>artifact_less\<close>: a sort by the signed value of the version.
  (\<^verbatim>\<open>std::sort\<close> may order equal elements in any way; whenever two elements are equal
  the duplicate check below fails, whatever their order.)\<close>

definition std_sort :: "ConfiguredArtifact list \<Rightarrow> ConfiguredArtifact list" where
  "std_sort xs = sort_key (\<lambda>a. sint (version a)) xs"

text \<open>\<^verbatim>\<open>std::adjacent_find(...) != end()\<close> with \<open>artifact_eq\<close>.\<close>

fun adjacent_find :: "ConfiguredArtifact list \<Rightarrow> bool" where
  "adjacent_find (a # b # rest) = (artifact_eq a b \<or> adjacent_find (b # rest))"
| "adjacent_find _ = False"

text \<open>The loop of \<^verbatim>\<open>ConfigurationParser::Parse\<close> over the sorted copy. Its state is
  \<^verbatim>\<open>output_artifacts\<close>, \<^verbatim>\<open>has_errors\<close> and the messages logged so far.\<close>

fun Parse_loop ::
  "ConfiguredArtifact list \<Rightarrow> string \<Rightarrow> 'q PostProcessingConfiguration
     \<Rightarrow> 'q OutputArtifact list \<times> bool \<times> DiagMessage list
     \<Rightarrow> 'q OutputArtifact list \<times> bool \<times> DiagMessage list" where
  "Parse_loop [] apk_name config st = st"
| "Parse_loop (artifact # rest) apk_name config (output_artifacts, has_errors, diag) =
     (case ToOutputArtifact artifact apk_name config of
        (None, d) \<Rightarrow> Parse_loop rest apk_name config (output_artifacts, True, diag @ d)
      | (Some output_artifact, d) \<Rightarrow>
          Parse_loop rest apk_name config
            (output_artifacts @ [output_artifact], has_errors, diag @ d))"

text \<open>\<^verbatim>\<open>ConfigurationParser::Parse\<close>. Its first argument is what
  \<^verbatim>\<open>ExtractConfiguration(contents_, diag_)\<close> returned: the XML reader and the action
  executor that build the configuration are not under src/. The sorted copy, which the source
  calls \<^verbatim>\<open>artifacts\<close>, is \<open>sorted_artifacts\<close> here. The result is the returned
  \<^verbatim>\<open>Maybe<std::vector<OutputArtifact>>\<close> and the messages logged after the
  extraction.\<close>

definition Parse ::
  "'q PostProcessingConfiguration option \<Rightarrow> string
     \<Rightarrow> 'q OutputArtifact list option \<times> DiagMessage list" where
  "Parse maybe_config apk_path =
     (case maybe_config of
        None \<Rightarrow> (None, [])
      | Some config \<Rightarrow>
          (let sorted_artifacts = std_sort (artifacts config)
           in if adjacent_find sorted_artifacts
              then (None, [diag_Error ''Configuration has duplicate versions''])
              else (let apk_name = GetFilename apk_path;
                        (output_artifacts, has_errors, diag) =
                          Parse_loop sorted_artifacts apk_name config ([], False, [])
                    in if has_errors then (None, diag) else (Some output_artifacts, diag))))"

subsection \<open>The XML tree (xml/XmlDom.h, as this file uses it)\<close>

record Attribute =
  attr_name :: string
  attr_value :: string

text \<open>An \<^verbatim>\<open>xml::Element\<close> has a name, attributes and child nodes; a child node is an
  element or a text node.\<close>

datatype Element = Element (el_name: string) (el_attributes: "Attribute list")
    (el_children: "Node list")
  and Node = ElementNode Element | TextNode string

text \<open>\<^verbatim>\<open>Element::GetChildElements\<close>: the children that are elements, in order.\<close>

fun child_elements :: "Node list \<Rightarrow> Element list" where
  "child_elements [] = []"
| "child_elements (ElementNode e # ns) = e # child_elements ns"
| "child_elements (TextNode t # ns) = child_elements ns"

definition GetChildElements :: "Element \<Rightarrow> Element list" where
  "GetChildElements el = child_elements (el_children el)"

text \<open>The loop \<^verbatim>\<open>for (auto& node : children) if (NodeCast<xml::Text>(node)) { ...; break; }\<close>
  acts on the first text node only.\<close>

fun first_text :: "Node list \<Rightarrow> string option" where
  "first_text [] = None"
| "first_text (TextNode t # ns) = Some t"
| "first_text (ElementNode e # ns) = first_text ns"

text \<open>The same loop without \<^verbatim>\<open>break\<close> acts on every text node.\<close>

fun all_texts :: "Node list \<Rightarrow> string list" where
  "all_texts [] = []"
| "all_texts (TextNode t # ns) = t # all_texts ns"
| "all_texts (ElementNode e # ns) = all_texts ns"

text \<open>\<^verbatim>\<open>isspace\<close>, \<^verbatim>\<open>isdigit\<close> of the C locale.\<close>

definition isspace :: "char \<Rightarrow> bool" where
  "isspace c = (c \<in> set [CHR '' '', CHR 0x09, CHR 0x0A, CHR 0x0B, CHR 0x0C, CHR 0x0D])"

definition isdigit :: "char \<Rightarrow> bool" where
  "isdigit c = (c \<in> set ''0123456789'')"

text \<open>Modelled from the spec: \<^verbatim>\<open>util::TrimWhitespace\<close> (util/Util) is not under src/,
  and the spec only speaks of the "text content" of an element; here it removes the white
  space at both ends of the text.\<close>

definition TrimWhitespace :: "string \<Rightarrow> string" where
  "TrimWhitespace s = rev (dropWhile isspace (rev (dropWhile isspace s)))"

text \<open>\<^verbatim>\<open>GetLabel\<close>: the value of the first attribute named label, an error when it is
  empty or missing.\<close>

definition GetLabel :: "Element \<Rightarrow> string \<times> DiagMessage list" where
  "GetLabel element =
     (let label = (case find (\<lambda>attr. attr_name attr = ''label'') (el_attributes element) of
                     Some attr \<Rightarrow> attr_value attr
                   | None \<Rightarrow> '''')
      in (label,
          if label = [] then [diag_Error (''No label found for element '' @ el_name element)]
          else []))"

subsection \<open>Exceptions\<close>

text \<open>The two exceptions that leave the handlers: \<^verbatim>\<open>std::invalid_argument\<close> and
  \<^verbatim>\<open>std::out_of_range\<close>. Nothing in the file catches them. A handler that throws returns
  \<open>Inl\<close> with the exception and the messages logged before it.\<close>

datatype Exception = invalid_argument | out_of_range

type_synonym 'a throws = "(Exception \<times> DiagMessage list) + 'a"

text \<open>\<^verbatim>\<open>std::stoi(str)\<close> of the C++ standard library (base 10): skip leading white
  space, read an optional sign and the longest run of digits; \<^verbatim>\<open>invalid_argument\<close>
  when there is no digit, \<^verbatim>\<open>out_of_range\<close> when the value is not an \<^verbatim>\<open>int\<close>.
  Characters after the digits are ignored.\<close>

definition digit_val :: "char \<Rightarrow> int" where
  "digit_val c = int (of_char c) - 48"

definition stoi :: "string \<Rightarrow> Exception + int32" where
  "stoi str =
     (let s1 = dropWhile isspace str;
          (neg, s2) = (case s1 of
                         [] \<Rightarrow> (False, [])
                       | c # r \<Rightarrow> if c = CHR ''-'' then (True, r)
                                  else if c = CHR ''+'' then (False, r) else (False, s1));
          digits = takeWhile isdigit s2
      in if digits = [] then Inl invalid_argument
         else (let n = foldl (\<lambda>acc c. 10 * acc + digit_val c) 0 digits;
                   v = (if neg then - n else n)
               in if v < - 2147483648 \<or> 2147483647 < v then Inl out_of_range
                  else Inr (word_of_int v)))"

subsection \<open>The artifact handler\<close>

text \<open>The attribute loop of \<^verbatim>\<open>ArtifactTagHandler\<close>. Its state is the artifact being
  built, the \<^verbatim>\<open>Maybe<int> version\<close> and the messages logged.\<close>

fun Artifact_attributes ::
  "Attribute list \<Rightarrow> ConfiguredArtifact \<times> int32 option \<times> DiagMessage list
     \<Rightarrow> (ConfiguredArtifact \<times> int32 option \<times> DiagMessage list) throws" where
  "Artifact_attributes [] st = Inr st"
| "Artifact_attributes (attr # rest) (artifact, ver, diag) =
     (if attr_name attr = ''name''
        then Artifact_attributes rest (artifact\<lparr>name := Some (attr_value attr)\<rparr>, ver, diag)
      else if attr_name attr = ''version''
        then (case stoi (attr_value attr) of
                Inl e \<Rightarrow> Inl (e, diag)
              | Inr v \<Rightarrow> Artifact_attributes rest (artifact, Some v, diag))
      else if attr_name attr = ''abi-group''
        then Artifact_attributes rest (artifact\<lparr>abi_group := Some (attr_value attr)\<rparr>, ver, diag)
      else if attr_name attr = ''screen-density-group''
        then Artifact_attributes rest
               (artifact\<lparr>screen_density_group := Some (attr_value attr)\<rparr>, ver, diag)
      else if attr_name attr = ''locale-group''
        then Artifact_attributes rest (artifact\<lparr>locale_group := Some (attr_value attr)\<rparr>, ver, diag)
      else if attr_name attr = ''android-sdk-group''
        then Artifact_attributes rest
               (artifact\<lparr>android_sdk_group := Some (attr_value attr)\<rparr>, ver, diag)
      else if attr_name attr = ''gl-texture-group''
        then Artifact_attributes rest
               (artifact\<lparr>gl_texture_group := Some (attr_value attr)\<rparr>, ver, diag)
      else if attr_name attr = ''device-feature-group''
        then Artifact_attributes rest
               (artifact\<lparr>device_feature_group := Some (attr_value attr)\<rparr>, ver, diag)
      else Artifact_attributes rest
             (artifact, ver,
              diag @ [diag_Note (''Unknown artifact attribute: '' @ attr_name attr @ '' = ''
                                  @ attr_value attr)]))"

text \<open>\<^verbatim>\<open>ConfiguredArtifact artifact{}\<close>: every reference empty, version 0.\<close>

definition empty_artifact :: ConfiguredArtifact where
  "empty_artifact =
     \<lparr>name = None, version = 0, abi_group = None, screen_density_group = None,
      locale_group = None, android_sdk_group = None, gl_texture_group = None,
      device_feature_group = None\<rparr>"

text \<open>\<^verbatim>\<open>ArtifactTagHandler\<close>: the returned flag, the configuration after the call and
  the messages logged.\<close>

definition ArtifactTagHandler ::
  "'q PostProcessingConfiguration \<Rightarrow> Element
     \<Rightarrow> (bool \<times> 'q PostProcessingConfiguration \<times> DiagMessage list) throws" where
  "ArtifactTagHandler config root_element =
     (let current_version =
            (if artifacts config = [] then 0 else version (last (artifacts config)))
      in case Artifact_attributes (el_attributes root_element) (empty_artifact, None, []) of
           Inl e \<Rightarrow> Inl e
         | Inr (artifact, ver, diag) \<Rightarrow>
             Inr (True,
                  config\<lparr>artifacts := artifacts config @
                    [artifact\<lparr>version := (case ver of Some v \<Rightarrow> v | None \<Rightarrow> current_version + 1)\<rparr>]\<rparr>,
                  diag))"

text \<open>Modelled from the spec: \<^verbatim>\<open>XmlActionExecutor\<close> (xml/XmlActionExecutor) is not
  under src/. The spec has the handlers run on the elements of a branch one after the other,
  in "declaration order", each on the configuration the previous ones left. Here the artifact
  handler runs on a list of artifact elements; an exception stops the run.\<close>

fun declare_artifacts ::
  "'q PostProcessingConfiguration \<Rightarrow> Element list
     \<Rightarrow> ('q PostProcessingConfiguration \<times> DiagMessage list) throws" where
  "declare_artifacts config [] = Inr (config, [])"
| "declare_artifacts config (el # els) =
     (case ArtifactTagHandler config el of
        Inl e \<Rightarrow> Inl e
      | Inr (ok, config', d) \<Rightarrow>
          (case declare_artifacts config' els of
             Inl (e, d') \<Rightarrow> Inl (e, d @ d')
           | Inr (config'', d') \<Rightarrow> Inr (config'', d @ d')))"

subsection \<open>The ABI group handler\<close>

text \<open>\<^verbatim>\<open>kStringToAbiMap\<close>.\<close>

definition kStringToAbiMap :: "string \<rightharpoonup> Abi" where
  "kStringToAbiMap =
     map_of [(''armeabi'', kArmeV6), (''armeabi-v7a'', kArmV7a), (''arm64-v8a'', kArm64V8a),
             (''x86'', kX86), (''x86_64'', kX86_64), (''mips'', kMips),
             (''mips64'', kMips64), (''universal'', kUniversal)]"

text \<open>The child loop of \<^verbatim>\<open>AbiGroupTagHandler\<close>. \<^verbatim>\<open>kStringToAbiMap.at(key)\<close> throws
  \<^verbatim>\<open>std::out_of_range\<close> for a key that is not in the map.\<close>

fun AbiGroup_children ::
  "Element list \<Rightarrow> Abi list \<times> bool \<times> DiagMessage list
     \<Rightarrow> (Abi list \<times> bool \<times> DiagMessage list) throws" where
  "AbiGroup_children [] st = Inr st"
| "AbiGroup_children (child # rest) (grp, valid, diag) =
     (if el_name child \<noteq> ''abi''
      then AbiGroup_children rest
             (grp, False, diag @ [diag_Error (''Unexpected element in ABI group: '' @ el_name child)])
      else (case first_text (el_children child) of
              None \<Rightarrow> AbiGroup_children rest (grp, valid, diag)
            | Some t \<Rightarrow>
                (case kStringToAbiMap (TrimWhitespace t) of
                   None \<Rightarrow> Inl (out_of_range, diag)
                 | Some abi \<Rightarrow> AbiGroup_children rest (grp @ [abi], valid, diag))))"

text \<open>\<^verbatim>\<open>AbiGroupTagHandler\<close>. \<^verbatim>\<open>config->abi_groups[label]\<close> is the group of that
  label, created empty when the label is new.\<close>

definition AbiGroupTagHandler ::
  "'q PostProcessingConfiguration \<Rightarrow> Element
     \<Rightarrow> (bool \<times> 'q PostProcessingConfiguration \<times> DiagMessage list) throws" where
  "AbiGroupTagHandler config root_element =
     (case GetLabel root_element of
        (label, d0) \<Rightarrow>
          if label = [] then Inr (False, config, d0)
          else (let grp = (case abi_groups config label of Some g \<Rightarrow> g | None \<Rightarrow> [])
                in case AbiGroup_children (GetChildElements root_element) (grp, True, d0) of
                     Inl e \<Rightarrow> Inl e
                   | Inr (grp', valid, diag) \<Rightarrow>
                       Inr (valid, config\<lparr>abi_groups := (abi_groups config)(label \<mapsto> grp')\<rparr>,
                            diag)))"

subsection \<open>The GL texture group handler\<close>

text \<open>The loop over the children of one \<^verbatim>\<open>gl-texture\<close> element. The error message
  names the \<^verbatim>\<open>gl-texture\<close> child (\<^verbatim>\<open>child->name\<close>), as the source does.\<close>

fun GlTexture_paths ::
  "Element list \<Rightarrow> string \<Rightarrow> GlTexture \<times> bool \<times> DiagMessage list
     \<Rightarrow> GlTexture \<times> bool \<times> DiagMessage list" where
  "GlTexture_paths [] child_name st = st"
| "GlTexture_paths (element # rest) child_name (result, valid, diag) =
     (if el_name element \<noteq> ''texture-path''
      then GlTexture_paths rest child_name
             (result, False,
              diag @ [diag_Error (''Unexpected element in gl-texture element: '' @ child_name)])
      else GlTexture_paths rest child_name
             (result\<lparr>texture_paths := texture_paths result
                        @ map TrimWhitespace (all_texts (el_children element))\<rparr>,
              valid, diag))"

text \<open>The child loop of \<^verbatim>\<open>GlTextureGroupTagHandler\<close>. Its state is the group, the
  accumulator \<^verbatim>\<open>result\<close> (declared before the loop), \<^verbatim>\<open>valid\<close> and the messages
  logged. \<^verbatim>\<open>group.push_back(result)\<close> ends every iteration.\<close>

fun GlTextureGroup_children ::
  "Element list \<Rightarrow> GlTexture list \<times> GlTexture \<times> bool \<times> DiagMessage list
     \<Rightarrow> GlTexture list \<times> GlTexture \<times> bool \<times> DiagMessage list" where
  "GlTextureGroup_children [] st = st"
| "GlTextureGroup_children (child # rest) (grp, result, valid, diag) =
     (let (result', valid', diag') =
            (if el_name child \<noteq> ''gl-texture''
             then (result, False,
                   diag @ [diag_Error (''Unexpected element in GL texture group: '' @ el_name child)])
             else GlTexture_paths (GetChildElements child) (el_name child)
                    (case find (\<lambda>attr. attr_name attr = ''name'') (el_attributes child) of
                       Some attr \<Rightarrow> result\<lparr>gl_name := attr_value attr\<rparr>
                     | None \<Rightarrow> result,
                     valid, diag))
      in GlTextureGroup_children rest (grp @ [result'], result', valid', diag'))"

definition GlTextureGroupTagHandler ::
  "'q PostProcessingConfiguration \<Rightarrow> Element
     \<Rightarrow> bool \<times> 'q PostProcessingConfiguration \<times> DiagMessage list" where
  "GlTextureGroupTagHandler config root_element =
     (case GetLabel root_element of
        (label, d0) \<Rightarrow>
          if label = [] then (False, config, d0)
          else (let grp = (case gl_texture_groups config label of Some g \<Rightarrow> g | None \<Rightarrow> [])
                in case GlTextureGroup_children (GetChildElements root_element)
                          (grp, \<lparr>gl_name = '''', texture_paths = []\<rparr>, True, d0) of
                     (grp', result, valid, diag) \<Rightarrow>
                       (valid,
                        config\<lparr>gl_texture_groups := (gl_texture_groups config)(label \<mapsto> grp')\<rparr>,
                        diag)))"

subsection \<open>Notions used to state the properties\<close>

text \<open>The positions at which a pattern occurs in a string, in increasing order.\<close>

definition occurrences :: "string \<Rightarrow> string \<Rightarrow> nat list" where
  "occurrences p s = filter (\<lambda>i. prefix p (drop i s)) [0..<Suc (length s)]"

text \<open>The six axis placeholders with the group reference each one is replaced by, in the
  order in which \<open>ToArtifactName\<close> processes them.\<close>

definition axis_placeholders :: "ConfiguredArtifact \<Rightarrow> (string \<times> string option) list" where
  "axis_placeholders artifact =
     [(''${abi}'', abi_group artifact),
      (''${density}'', screen_density_group artifact),
      (''${locale}'', locale_group artifact),
      (''${sdk}'', android_sdk_group artifact),
      (''${feature}'', device_feature_group artifact),
      (''${gl}'', gl_texture_group artifact)]"

text \<open>The name string after a list of replacement steps, \<open>None\<close> once a step has
  failed.\<close>

fun working_name :: "(string \<times> string option) list \<Rightarrow> string option \<Rightarrow> string option" where
  "working_name [] s = s"
| "working_name ((p, v) # steps) None = None"
| "working_name ((p, v) # steps) (Some s) =
     (case ReplacePlaceholder p v s of
        (ok, s', d) \<Rightarrow> if ok then working_name steps (Some s') else None)"

text \<open>The name string as it stands when \<open>ToArtifactName\<close> reaches the \<open>k\<close>-th axis
  placeholder (counted from 0): the format after \<open>ToBaseName\<close> and the replacements of the
  axes before it. For \<open>k = 6\<close> it is the finished name.\<close>

definition name_before_axis ::
  "ConfiguredArtifact \<Rightarrow> string \<Rightarrow> string \<Rightarrow> nat \<Rightarrow> string option" where
  "name_before_axis artifact format apk_name k =
     working_name (take k (axis_placeholders artifact)) (fst (ToBaseName format apk_name))"

text \<open>The texture paths that one child of a texture group contributes: those of every
  text node of every \<^verbatim>\<open>texture-path\<close> element of a \<^verbatim>\<open>gl-texture\<close> child, nothing for
  any other child.\<close>

definition own_texture_paths :: "Element \<Rightarrow> string list" where
  "own_texture_paths child =
     (if el_name child = ''gl-texture''
      then concat (map (\<lambda>e. if el_name e = ''texture-path''
                              then map TrimWhitespace (all_texts (el_children e)) else [])
                       (GetChildElements child))
      else [])"

text \<open>Whether an artifact element carries a version attribute.\<close>

definition has_version :: "Element \<Rightarrow> bool" where
  "has_version el = (\<exists>attr\<in>set (el_attributes el). attr_name attr = ''version'')"

subsection \<open>Example inputs\<close>

text \<open>A configuration with no artifact, no format and no group.\<close>

definition empty_config :: "unit PostProcessingConfiguration" where
  "empty_config =
     \<lparr>artifacts = [], artifact_format = None, abi_groups = Map.empty,
      screen_density_groups = Map.empty, locale_groups = Map.empty,
      android_sdk_groups = Map.empty, gl_texture_groups = Map.empty,
      device_feature_groups = Map.empty\<rparr>"

text \<open>An artifact with a literal name and a version, and no group reference.\<close>

definition plain_artifact :: "string \<Rightarrow> int32 \<Rightarrow> ConfiguredArtifact" where
  "plain_artifact nm v = empty_artifact\<lparr>name := Some nm, version := v\<rparr>"

text \<open>Two artifacts declared in decreasing order of version.\<close>

definition reversed_config :: "unit PostProcessingConfiguration" where
  "reversed_config =
     empty_config\<lparr>artifacts := [plain_artifact ''b.apk'' 2, plain_artifact ''a.apk'' 1]\<rparr>"

text \<open>Two artifacts with the same version.\<close>

definition duplicate_config :: "unit PostProcessingConfiguration" where
  "duplicate_config =
     empty_config\<lparr>artifacts := [plain_artifact ''a.apk'' 1, plain_artifact ''b.apk'' 1]\<rparr>"

text \<open>An architecture group labelled arm with two entries, and an artifact that refers to
  it.\<close>

definition arm_artifact :: ConfiguredArtifact where
  "arm_artifact = (plain_artifact ''b.apk'' 2)\<lparr>abi_group := Some ''arm''\<rparr>"

definition arm_config :: "unit PostProcessingConfiguration" where
  "arm_config =
     empty_config\<lparr>artifacts := [plain_artifact ''a.apk'' 1, arm_artifact],
                   abi_groups := [''arm'' \<mapsto> [kArmeV6, kArmV7a]]\<rparr>"

text \<open>The same artifacts without the group: the second one refers to a label that does not
  exist.\<close>

definition missing_config :: "unit PostProcessingConfiguration" where
  "missing_config = empty_config\<lparr>artifacts := [plain_artifact ''a.apk'' 1, arm_artifact]\<rparr>"

text \<open>An artifact without a name of its own that refers to the architecture group arm.\<close>

definition abi_artifact :: ConfiguredArtifact where
  "abi_artifact = empty_artifact\<lparr>version := 1, abi_group := Some ''arm''\<rparr>"

text \<open>An artifact whose architecture label is itself the text of the texture
  placeholder.\<close>

definition nested_artifact :: ConfiguredArtifact where
  "nested_artifact =
     empty_artifact\<lparr>version := 1, abi_group := Some ''${gl}'', gl_texture_group := Some ''t''\<rparr>"

text \<open>A texture group, an artifact with a literal name that refers to it, and an artifact
  without a name that refers to it under a global format with no texture placeholder.\<close>

definition dxt1_textures :: "GlTexture list" where
  "dxt1_textures = [\<lparr>gl_name = ''GL_A'', texture_paths = [''assets/a/*'']\<rparr>]"

definition literal_texture_artifact :: ConfiguredArtifact where
  "literal_texture_artifact = (plain_artifact ''foo.apk'' 1)\<lparr>gl_texture_group := Some ''dxt1''\<rparr>"

definition literal_texture_config :: "unit PostProcessingConfiguration" where
  "literal_texture_config =
     empty_config\<lparr>artifacts := [literal_texture_artifact],
                   gl_texture_groups := [''dxt1'' \<mapsto> dxt1_textures]\<rparr>"

definition format_texture_artifact :: ConfiguredArtifact where
  "format_texture_artifact = empty_artifact\<lparr>version := 1, gl_texture_group := Some ''dxt1''\<rparr>"

definition format_texture_config :: "unit PostProcessingConfiguration" where
  "format_texture_config =
     empty_config\<lparr>artifacts := [format_texture_artifact],
                   artifact_format := Some ''${basename}.${ext}'',
                   gl_texture_groups := [''dxt1'' \<mapsto> dxt1_textures]\<rparr>"

text \<open>XML elements: an artifact element with the given attributes, three artifact
  declarations of which the second has a version, an architecture group with an unknown
  entry before a known one, and a texture group with a foreign child between two textures.\<close>

definition artifact_element :: "(string \<times> string) list \<Rightarrow> Element" where
  "artifact_element attrs =
     Element ''artifact'' (map (\<lambda>(n, v). \<lparr>attr_name = n, attr_value = v\<rparr>) attrs) []"

definition three_artifacts :: "Element list" where
  "three_artifacts =
     [artifact_element [], artifact_element [(''version'', ''5'')],
      artifact_element [(''name'', ''c.apk'')]]"

definition bogus_abi_group :: Element where
  "bogus_abi_group =
     Element ''abi-group'' [\<lparr>attr_name = ''label'', attr_value = ''arm''\<rparr>]
       [ElementNode (Element ''abi'' [] [TextNode ''bogus'']),
        ElementNode (Element ''abi'' [] [TextNode ''x86''])]"

definition texture_group :: Element where
  "texture_group =
     Element ''gl-texture-group'' [\<lparr>attr_name = ''label'', attr_value = ''dxt1''\<rparr>]
       [ElementNode (Element ''gl-texture'' [\<lparr>attr_name = ''name'', attr_value = ''GL_A''\<rparr>]
          [ElementNode (Element ''texture-path'' [] [TextNode ''assets/a/*''])]),
        ElementNode (Element ''comment'' [] []),
        ElementNode (Element ''gl-texture'' [\<lparr>attr_name = ''name'', attr_value = ''GL_B''\<rparr>]
          [ElementNode (Element ''texture-path'' [] [TextNode '' assets/b/* ''])])]"

section \<open>Lemmas\<close>

subsection \<open>Version order and the resolution loop\<close>

lemma sint_version_eq: "sint (x :: int32) = sint y \<longleftrightarrow> x = y"
  by (auto intro: signed_word_eqI)

lemma adjacent_find_sorted:
  "sorted (map (\<lambda>a. sint (version a)) xs) \<Longrightarrow>
     adjacent_find xs \<longleftrightarrow> \<not> distinct (map version xs)"
proof (induction xs rule: adjacent_find.induct)
  case (1 a b rest)
  have ab: "sint (version a) \<le> sint (version b)" using "1.prems" by simp
  have rest: "\<forall>c\<in>set rest. sint (version b) \<le> sint (version c)" using "1.prems" by auto
  have IH: "adjacent_find (b # rest) \<longleftrightarrow> \<not> distinct (map version (b # rest))"
    using "1.IH" "1.prems" by simp
  show ?case
  proof (cases "version a = version b")
    case True
    then show ?thesis by (simp add: artifact_eq_def)
  next
    case False
    then have lt: "sint (version a) < sint (version b)"
      using ab sint_version_eq[of "version a" "version b"] by linarith
    have "version a \<notin> version ` set rest"
    proof
      assume "version a \<in> version ` set rest"
      then obtain c where c: "c \<in> set rest" "version a = version c" by auto
      with rest lt show False by fastforce
    qed
    with False IH show ?thesis by (simp add: artifact_eq_def)
  qed
qed simp_all

lemma distinct_versions_std_sort:
  "distinct (map version (std_sort xs)) \<longleftrightarrow> distinct (map version xs)"
  by (simp add: std_sort_def distinct_map)

lemma set_std_sort: "set (std_sort xs) = set xs"
  by (simp add: std_sort_def)

lemma adjacent_find_std_sort:
  "adjacent_find (std_sort xs) \<longleftrightarrow> \<not> distinct (map version xs)"
  using adjacent_find_sorted[of "std_sort xs"] distinct_versions_std_sort[of xs]
  by (simp add: std_sort_def)

lemma Parse_loop_eq:
  "Parse_loop as apk_name config (outs, err, diag) =
     (outs @ List.map_filter (\<lambda>a. fst (ToOutputArtifact a apk_name config)) as,
      err \<or> (\<exists>a\<in>set as. fst (ToOutputArtifact a apk_name config) = None),
      diag @ concat (map (\<lambda>a. snd (ToOutputArtifact a apk_name config)) as))"
proof (induction as arbitrary: outs err diag)
  case Nil
  then show ?case by simp
next
  case (Cons a as)
  show ?case
  proof (cases "ToOutputArtifact a apk_name config")
    case (Pair r d)
    then show ?thesis
      by (cases r) (simp_all add: Cons.IH)
  qed
qed

lemma map_filter_all_Some:
  "\<forall>a\<in>set as. f a \<noteq> None \<Longrightarrow> map Some (List.map_filter f as) = map f as"
  by (induction as) auto

lemma Parse_duplicates:
  "\<not> distinct (map version (artifacts config)) \<Longrightarrow>
     Parse (Some config) apk_path = (None, [diag_Error ''Configuration has duplicate versions''])"
  by (simp add: Parse_def Let_def adjacent_find_std_sort)

lemma Parse_distinct:
  "distinct (map version (artifacts config)) \<Longrightarrow>
     Parse (Some config) apk_path =
       (if \<exists>a\<in>set (artifacts config). fst (ToOutputArtifact a (GetFilename apk_path) config) = None
        then None
        else Some (List.map_filter (\<lambda>a. fst (ToOutputArtifact a (GetFilename apk_path) config))
                     (std_sort (artifacts config))),
        concat (map (\<lambda>a. snd (ToOutputArtifact a (GetFilename apk_path) config))
                  (std_sort (artifacts config))))"
  by (simp add: Parse_def Let_def adjacent_find_std_sort Parse_loop_eq set_std_sort)


lemma foldl_push_back: "foldl (\<lambda>t item. t @ [item]) target items = target @ items"
  by (induction items arbitrary: target) simp_all

lemma CopyXmlReferences_eq:
  "CopyXmlReferences nm groups target =
     (case nm of None \<Rightarrow> (True, target)
      | Some n \<Rightarrow> (case groups n of None \<Rightarrow> (False, target) | Some g \<Rightarrow> (True, target @ g)))"
  by (simp add: CopyXmlReferences_def foldl_push_back split: option.splits)


lemma Copy_axis:
  "(fst (CopyXmlReferences nm groups []) \<and> snd (CopyXmlReferences nm groups []) = xs) \<longleftrightarrow>
     (case nm of None \<Rightarrow> xs = [] | Some l \<Rightarrow> groups l = Some xs)"
  by (auto simp: CopyXmlReferences_eq split: option.splits)

lemma ToOutputArtifact_shape:
  "fst (ToOutputArtifact artifact apk_name config) =
     (case (case name artifact of
              Some _ \<Rightarrow> fst (Name artifact apk_name)
            | None \<Rightarrow> (case artifact_format config of
                         Some f \<Rightarrow> fst (ToArtifactName artifact f apk_name)
                       | None \<Rightarrow> None)) of
        None \<Rightarrow> None
      | Some n \<Rightarrow>
          if fst (CopyXmlReferences (abi_group artifact) (abi_groups config) [])
             \<and> fst (CopyXmlReferences (locale_group artifact) (locale_groups config) [])
             \<and> fst (CopyXmlReferences (screen_density_group artifact) (screen_density_groups config) [])
             \<and> fst (CopyXmlReferences (device_feature_group artifact) (device_feature_groups config) [])
             \<and> fst (CopyXmlReferences (gl_texture_group artifact) (gl_texture_groups config) [])
             \<and> (\<forall>l. android_sdk_group artifact = Some l \<longrightarrow> android_sdk_groups config l \<noteq> None)
          then Some \<lparr>out_name = n,
                 abis = snd (CopyXmlReferences (abi_group artifact) (abi_groups config) []),
                 screen_densities = snd (CopyXmlReferences (screen_density_group artifact) (screen_density_groups config) []),
                 locales = snd (CopyXmlReferences (locale_group artifact) (locale_groups config) []),
                 android_sdk = (case android_sdk_group artifact of None \<Rightarrow> None
                                | Some l \<Rightarrow> android_sdk_groups config l),
                 features = snd (CopyXmlReferences (device_feature_group artifact) (device_feature_groups config) []),
                 textures = snd (CopyXmlReferences (gl_texture_group artifact) (gl_texture_groups config) [])\<rparr>
          else None)"
proof -
  have sdk: "(case android_sdk_group artifact of None \<Rightarrow> (True, None)
              | Some l \<Rightarrow> (case android_sdk_groups config l of None \<Rightarrow> (False, None)
                            | Some entry \<Rightarrow> (True, Some entry))) =
             ((\<forall>l. android_sdk_group artifact = Some l \<longrightarrow> android_sdk_groups config l \<noteq> None),
              (case android_sdk_group artifact of None \<Rightarrow> None
               | Some l \<Rightarrow> android_sdk_groups config l))"
    by (simp split: option.splits)
  show ?thesis
    unfolding ToOutputArtifact_def sdk
    by (simp add: Let_def split_def split: option.splits)
qed


lemma ToOutputArtifact_Some_iff:
  "fst (ToOutputArtifact artifact apk_name config) = Some out \<longleftrightarrow>
     (case name artifact of
        Some _ \<Rightarrow> fst (Name artifact apk_name)
      | None \<Rightarrow> (case artifact_format config of
                   Some f \<Rightarrow> fst (ToArtifactName artifact f apk_name)
                 | None \<Rightarrow> None)) = Some (out_name out)
     \<and> (case abi_group artifact of
          None \<Rightarrow> abis out = []
        | Some l \<Rightarrow> abi_groups config l = Some (abis out))
     \<and> (case locale_group artifact of
          None \<Rightarrow> locales out = []
        | Some l \<Rightarrow> locale_groups config l = Some (locales out))
     \<and> (case screen_density_group artifact of
          None \<Rightarrow> screen_densities out = []
        | Some l \<Rightarrow> screen_density_groups config l = Some (screen_densities out))
     \<and> (case device_feature_group artifact of
          None \<Rightarrow> features out = []
        | Some l \<Rightarrow> device_feature_groups config l = Some (features out))
     \<and> (case gl_texture_group artifact of
          None \<Rightarrow> textures out = []
        | Some l \<Rightarrow> gl_texture_groups config l = Some (textures out))
     \<and> (case android_sdk_group artifact of
          None \<Rightarrow> android_sdk out = None
        | Some l \<Rightarrow> android_sdk out \<noteq> None \<and> android_sdk_groups config l = android_sdk out)"
  (is "?L \<longleftrightarrow> ?N \<and> ?A \<and> ?Lo \<and> ?D \<and> ?F \<and> ?T \<and> ?S")
proof -
  obtain n ab de lo sd fe te where out: "out = \<lparr>out_name = n, abis = ab, screen_densities = de,
      locales = lo, android_sdk = sd, features = fe, textures = te\<rparr>"
    by (cases out) auto
  have sels: "out_name out = n" "abis out = ab" "screen_densities out = de" "locales out = lo"
    "android_sdk out = sd" "features out = fe" "textures out = te"
    by (simp_all add: out)
  have A: "?A \<longleftrightarrow> fst (CopyXmlReferences (abi_group artifact) (abi_groups config) [])
               \<and> snd (CopyXmlReferences (abi_group artifact) (abi_groups config) []) = ab"
    unfolding sels by (simp add: Copy_axis)
  have Lo: "?Lo \<longleftrightarrow> fst (CopyXmlReferences (locale_group artifact) (locale_groups config) [])
               \<and> snd (CopyXmlReferences (locale_group artifact) (locale_groups config) []) = lo"
    unfolding sels by (simp add: Copy_axis)
  have D: "?D \<longleftrightarrow> fst (CopyXmlReferences (screen_density_group artifact) (screen_density_groups config) [])
               \<and> snd (CopyXmlReferences (screen_density_group artifact) (screen_density_groups config) []) = de"
    unfolding sels by (simp add: Copy_axis)
  have F: "?F \<longleftrightarrow> fst (CopyXmlReferences (device_feature_group artifact) (device_feature_groups config) [])
               \<and> snd (CopyXmlReferences (device_feature_group artifact) (device_feature_groups config) []) = fe"
    unfolding sels by (simp add: Copy_axis)
  have T: "?T \<longleftrightarrow> fst (CopyXmlReferences (gl_texture_group artifact) (gl_texture_groups config) [])
               \<and> snd (CopyXmlReferences (gl_texture_group artifact) (gl_texture_groups config) []) = te"
    unfolding sels by (simp add: Copy_axis)
  have S: "?S \<longleftrightarrow> (\<forall>l. android_sdk_group artifact = Some l \<longrightarrow> android_sdk_groups config l \<noteq> None)
               \<and> (case android_sdk_group artifact of None \<Rightarrow> None
                   | Some l \<Rightarrow> android_sdk_groups config l) = sd"
    unfolding sels by (auto split: option.splits)
  have N: "?N \<longleftrightarrow> (case name artifact of
        Some _ \<Rightarrow> fst (Name artifact apk_name)
      | None \<Rightarrow> (case artifact_format config of
                   Some f \<Rightarrow> fst (ToArtifactName artifact f apk_name)
                 | None \<Rightarrow> None)) = Some n"
    unfolding sels by simp
  show ?thesis
    unfolding A Lo D F T S N ToOutputArtifact_shape
    by (auto simp: out split: option.splits)
qed


lemma ToOutputArtifact_missing_reference:
  assumes "(\<exists>l. abi_group artifact = Some l \<and> abi_groups config l = None)
         \<or> (\<exists>l. locale_group artifact = Some l \<and> locale_groups config l = None)
         \<or> (\<exists>l. screen_density_group artifact = Some l \<and> screen_density_groups config l = None)
         \<or> (\<exists>l. device_feature_group artifact = Some l \<and> device_feature_groups config l = None)
         \<or> (\<exists>l. gl_texture_group artifact = Some l \<and> gl_texture_groups config l = None)
         \<or> (\<exists>l. android_sdk_group artifact = Some l \<and> android_sdk_groups config l = None)"
  shows "fst (ToOutputArtifact artifact apk_name config) = None"
proof (cases "fst (ToOutputArtifact artifact apk_name config)")
  case None
  then show ?thesis .
next
  case (Some out)
  then show ?thesis
    using assms unfolding ToOutputArtifact_Some_iff by (auto split: option.splits)
qed

lemma Parse_fails:
  assumes "artifact \<in> set (artifacts config)"
    and "fst (ToOutputArtifact artifact (GetFilename apk_path) config) = None"
  shows "fst (Parse (Some config) apk_path) = None"
proof (cases "distinct (map version (artifacts config))")
  case True
  then show ?thesis using assms by (auto simp: Parse_distinct)
next
  case False
  then show ?thesis by (simp add: Parse_duplicates)
qed

lemma sorted_wrt_std_sort:
  "distinct (map version xs) \<Longrightarrow> sorted_wrt artifact_less (std_sort xs)"
proof -
  assume d: "distinct (map version xs)"
  have "sorted (map (\<lambda>a. sint (version a)) (std_sort xs))" by (simp add: std_sort_def)
  moreover have "distinct (map (\<lambda>a. sint (version a)) (std_sort xs))"
  proof -
    have "distinct (map version (std_sort xs))" using d by (simp add: distinct_versions_std_sort)
    then have "distinct (map sint (map version (std_sort xs)))"
      by (subst distinct_map) (auto simp: inj_on_def sint_version_eq)
    then show ?thesis by (simp add: o_def)
  qed
  ultimately have "sorted_wrt (<) (map (\<lambda>a. sint (version a)) (std_sort xs))"
    by (simp add: strict_sorted_iff)
  then show ?thesis by (simp add: sorted_wrt_map artifact_less_def[abs_def])
qed

subsection \<open>Occurrences of a placeholder\<close>

lemma occurrences_Nil: "occurrences p [] = (if p = [] then [0] else [])"
  by (simp add: occurrences_def)

lemma occurrences_Cons:
  "occurrences p (c # cs) = (if prefix p (c # cs) then [0] else []) @ map Suc (occurrences p cs)"
proof -
  have "[0..<Suc (Suc (length cs))] = 0 # [Suc 0..<Suc (Suc (length cs))]"
    by (rule upt_conv_Cons) simp
  also have "[Suc 0..<Suc (Suc (length cs))] = map Suc [0..<Suc (length cs)]"
    by (rule map_Suc_upt [symmetric])
  finally have "[0..<Suc (Suc (length cs))] = 0 # map Suc [0..<Suc (length cs)]" .
  then have "occurrences p (c # cs) =
      filter (\<lambda>i. prefix p (drop i (c # cs))) (0 # map Suc [0..<Suc (length cs)])"
    by (simp only: occurrences_def length_Cons)
  also have "\<dots> = (if prefix p (c # cs) then [0] else []) @
      map Suc (filter (\<lambda>i. prefix p (drop i cs)) [0..<Suc (length cs)])"
    by (simp add: filter_map o_def del: upt_Suc)
  finally show ?thesis by (simp only: occurrences_def)
qed

lemma str_find_occurrences:
  "str_find p s = (case occurrences p s of [] \<Rightarrow> None | i # _ \<Rightarrow> Some i)"
  by (induction s) (auto simp: occurrences_Nil occurrences_Cons split: list.splits)

lemma in_occurrences: "i \<in> set (occurrences p s) \<longleftrightarrow> i \<le> length s \<and> prefix p (drop i s)"
  by (auto simp: occurrences_def less_Suc_eq_le simp del: upt_Suc)

lemma prefix_drop_nth:
  assumes "prefix p (drop i s)" "k < length p"
  shows "s ! (i + k) = p ! k" "i + k < length s"
proof -
  from assms(1) obtain r where r: "drop i s = p @ r" by (auto simp: prefix_def)
  then have "length (drop i s) = length (p @ r)" by simp
  then have len: "length p \<le> length s - i" by simp
  with assms(2) show "i + k < length s" by simp
  then have "s ! (i + k) = drop i s ! k" by simp
  with r assms(2) show "s ! (i + k) = p ! k" by (simp add: nth_append)
qed

lemma occurrences_apart:
  assumes bf: "p = c # r" "c \<notin> set r"
    and i: "i \<in> set (occurrences p s)" and j: "j \<in> set (occurrences p s)" and lt: "i < j"
  shows "i + length p \<le> j"
proof (rule ccontr)
  assume "\<not> i + length p \<le> j"
  then have k: "j - i < length p" "0 < j - i" using lt by auto
  from i have pi: "prefix p (drop i s)" by (simp add: in_occurrences)
  from j have pj: "prefix p (drop j s)" by (simp add: in_occurrences)
  have "s ! (i + (j - i)) = p ! (j - i)" using prefix_drop_nth(1)[OF pi k(1)] .
  moreover have "s ! (j + 0) = p ! 0" using prefix_drop_nth(1)[OF pj, of 0] bf by simp
  ultimately have pc: "p ! (j - i) = c" using lt bf by simp
  from k(2) obtain m where m: "j - i = Suc m" by (cases "j - i") auto
  with k(1) bf have "m < length r" by simp
  moreover from pc m bf have "r ! m = c" by simp
  ultimately have "c \<in> set r" using nth_mem by blast
  with bf show False by simp
qed

lemma occurs_after_replace:
  assumes i: "i \<le> length s" and j: "j \<in> set (occurrences p s)" and ij: "i + n \<le> j"
  shows "occurrences p (str_replace s i n v) \<noteq> []"
proof -
  let ?s' = "str_replace s i n v"
  let ?j' = "i + length v + (j - (i + n))"
  from j have jl: "j \<le> length s" and pj: "prefix p (drop j s)" by (simp_all add: in_occurrences)
  have "drop ?j' ?s' = drop (j - (i + n)) (drop (i + n) s)"
    using i by (simp add: str_replace_def min_absorb2)
  also have "\<dots> = drop j s" using ij by simp
  finally have d: "drop ?j' ?s' = drop j s" .
  have "length ?s' = i + length v + (length s - (i + n))"
    using i by (simp add: str_replace_def min_absorb2)
  then have "?j' \<le> length ?s'" using jl ij by simp
  with d pj have "?j' \<in> set (occurrences p ?s')" by (simp add: in_occurrences)
  then show ?thesis by auto
qed


lemma str_find_None_iff: "str_find p s = None \<longleftrightarrow> occurrences p s = []"
  by (simp add: str_find_occurrences split: list.splits)

lemma ReplacePlaceholder_absent_unreferenced:
  "occurrences p s = [] \<Longrightarrow> ReplacePlaceholder p None s = (True, s, [])"
  by (simp add: ReplacePlaceholder_def str_find_occurrences)

lemma ReplacePlaceholder_absent_referenced:
  "occurrences p s = [] \<Longrightarrow> fst (ReplacePlaceholder p (Some l) s) = False"
  by (simp add: ReplacePlaceholder_def str_find_occurrences)

lemma ReplacePlaceholder_present_unreferenced:
  "occurrences p s \<noteq> [] \<Longrightarrow> fst (ReplacePlaceholder p None s) = False"
  by (simp add: ReplacePlaceholder_def str_find_occurrences split: list.splits)

lemma ReplacePlaceholder_first:
  "occurrences p s = i # rest \<Longrightarrow>
     ReplacePlaceholder p (Some l) s =
       (if occurrences p (str_replace s i (length p) l) = []
        then (True, str_replace s i (length p) l, [])
        else (False, str_replace s i (length p) l,
              [diag_Error (''Placeholder present multiple times: '' @ p)]))"
  by (simp add: ReplacePlaceholder_def str_find_occurrences Let_def split: list.splits)

lemma sorted_occurrences: "sorted_wrt (<) (occurrences p s)"
  unfolding occurrences_def by (rule sorted_wrt_filter) (simp del: upt_Suc)

lemma ReplacePlaceholder_repeated:
  assumes bf: "p = c # r" "c \<notin> set r" and many: "1 < length (occurrences p s)"
  shows "fst (ReplacePlaceholder p v s) = False"
proof (cases v)
  case None
  from many have "occurrences p s \<noteq> []" by auto
  with None show ?thesis by (simp add: ReplacePlaceholder_present_unreferenced)
next
  case (Some l)
  from many obtain i j rest where occ: "occurrences p s = i # j # rest"
    by (cases "occurrences p s"; cases "tl (occurrences p s)") auto
  have "i < j" using sorted_occurrences[of p s] occ by simp
  moreover have ij: "i \<in> set (occurrences p s)" "j \<in> set (occurrences p s)" using occ by simp_all
  ultimately have "i + length p \<le> j" using occurrences_apart[OF bf] by blast
  moreover from ij(1) have "i \<le> length s" by (simp add: in_occurrences)
  ultimately have "occurrences p (str_replace s i (length p) l) \<noteq> []"
    using occurs_after_replace ij(2) by blast
  then show ?thesis using Some occ by (simp add: ReplacePlaceholder_first)
qed

lemma working_name_None: "working_name steps None = None"
  by (cases steps) auto

lemma working_name_append:
  "working_name (xs @ ys) s = working_name ys (working_name xs s)"
proof (induction xs arbitrary: s)
  case Nil
  then show ?case by simp
next
  case (Cons x xs)
  obtain p v where x: "x = (p, v)" by (cases x)
  show ?case
  proof (cases s)
    case None
    then show ?thesis by (simp add: x working_name_None)
  next
    case (Some t)
    then show ?thesis
      by (cases "ReplacePlaceholder p v t") (simp add: x Cons.IH working_name_None)
  qed
qed

lemma working_name_step:
  assumes "k < length steps" "steps ! k = (p, v)" "working_name (take k steps) s0 = Some s"
  shows "working_name (take (Suc k) steps) s0 =
           (if fst (ReplacePlaceholder p v s) then Some (fst (snd (ReplacePlaceholder p v s))) else None)"
proof -
  have "take (Suc k) steps = take k steps @ [(p, v)]"
    using assms(1,2) by (simp add: take_Suc_conv_app_nth)
  then show ?thesis
    using assms(3) by (simp add: working_name_append split: prod.splits)
qed

lemma working_name_fails:
  assumes "k < length steps" "steps ! k = (p, v)" "working_name (take k steps) s0 = Some s"
    "fst (ReplacePlaceholder p v s) = False"
  shows "working_name steps s0 = None"
proof -
  have "steps = take (Suc k) steps @ drop (Suc k) steps" by simp
  then have "working_name steps s0 = working_name (drop (Suc k) steps) (working_name (take (Suc k) steps) s0)"
    by (metis working_name_append)
  also have "working_name (take (Suc k) steps) s0 = None"
    using working_name_step[OF assms(1-3)] assms(4) by simp
  finally show ?thesis by (simp add: working_name_None)
qed

lemma ToArtifactName_working:
  "fst (ToArtifactName artifact format apk_name) =
     working_name (axis_placeholders artifact) (fst (ToBaseName format apk_name))"
  by (simp add: ToArtifactName_def axis_placeholders_def split: prod.splits option.splits)

lemma ToArtifactName_name_before_axis:
  "fst (ToArtifactName artifact format apk_name) = name_before_axis artifact format apk_name 6"
  by (simp add: ToArtifactName_working name_before_axis_def axis_placeholders_def)


lemma axis_placeholder_shape:
  assumes "k < 6" "axis_placeholders artifact ! k = (p, v)"
  shows "\<exists>r. p = CHR ''$'' # r \<and> CHR ''$'' \<notin> set r"
proof -
  from assms(1) consider "k = 0" | "k = 1" | "k = 2" | "k = 3" | "k = 4" | "k = 5" by linarith
  then show ?thesis
    using assms(2) by cases (auto simp: axis_placeholders_def)
qed

lemma length_axis_placeholders: "length (axis_placeholders artifact) = 6"
  by (simp add: axis_placeholders_def)

lemma ToArtifactName_texture_absent:
  assumes gl: "gl_texture_group artifact = Some l"
    and absent: "\<forall>s. name_before_axis artifact format apk_name 5 = Some s \<longrightarrow>
                   occurrences ''${gl}'' s = []"
  shows "fst (ToArtifactName artifact format apk_name) = None"
proof (cases "name_before_axis artifact format apk_name 5")
  case None
  have "axis_placeholders artifact = take 5 (axis_placeholders artifact) @ drop 5 (axis_placeholders artifact)"
    by simp
  then have "working_name (axis_placeholders artifact) (fst (ToBaseName format apk_name)) =
      working_name (drop 5 (axis_placeholders artifact))
        (working_name (take 5 (axis_placeholders artifact)) (fst (ToBaseName format apk_name)))"
    by (metis working_name_append)
  with None show ?thesis
    by (simp add: ToArtifactName_working name_before_axis_def working_name_None)
next
  case (Some s)
  with absent have occ: "occurrences ''${gl}'' s = []" by simp
  have pv: "axis_placeholders artifact ! 5 = (''${gl}'', Some l)"
    using gl by (simp add: axis_placeholders_def)
  have "working_name (axis_placeholders artifact) (fst (ToBaseName format apk_name)) = None"
  proof (rule working_name_fails[OF _ pv])
    show "5 < length (axis_placeholders artifact)" by (simp add: length_axis_placeholders)
    show "working_name (take 5 (axis_placeholders artifact)) (fst (ToBaseName format apk_name)) = Some s"
      using Some by (simp add: name_before_axis_def)
    show "fst (ReplacePlaceholder ''${gl}'' (Some l) s) = False"
      using occ by (rule ReplacePlaceholder_absent_referenced)
  qed
  then show ?thesis by (simp add: ToArtifactName_working)
qed


subsection \<open>The handlers\<close>

lemma Artifact_attributes_total:
  "\<forall>attr\<in>set attrs. attr_name attr = ''version'' \<longrightarrow> (\<exists>v. stoi (attr_value attr) = Inr v) \<Longrightarrow>
     \<exists>artifact' ver' d'.
        Artifact_attributes attrs (artifact, ver, d) = Inr (artifact', ver', d')
        \<and> ((\<forall>attr\<in>set attrs. attr_name attr \<noteq> ''version'') \<longrightarrow> ver' = ver)
        \<and> (\<forall>m\<in>set d'. m \<in> set d \<or> diag_level m = Note)"
proof (induction attrs arbitrary: artifact ver d)
  case Nil
  then show ?case by simp
next
  case (Cons attr rest)
  have rest: "\<forall>attr\<in>set rest. attr_name attr = ''version'' \<longrightarrow> (\<exists>v. stoi (attr_value attr) = Inr v)"
    using Cons.prems by simp
  note IH = Cons.IH[OF rest]
  show ?case
  proof (cases "attr_name attr = ''version''")
    case True
    with Cons.prems obtain v where v: "stoi (attr_value attr) = Inr v" by auto
    have eq: "Artifact_attributes (attr # rest) (artifact, ver, d) =
         Artifact_attributes rest (artifact, Some v, d)"
      using True v by simp
    show ?thesis unfolding eq using IH[of artifact "Some v" d] True by auto
  next
    case False
    consider (known) "attr_name attr \<in> {''name'', ''abi-group'', ''screen-density-group'',
        ''locale-group'', ''android-sdk-group'', ''gl-texture-group'', ''device-feature-group''}"
      | (unknown) "attr_name attr \<notin> {''name'', ''version'', ''abi-group'', ''screen-density-group'',
        ''locale-group'', ''android-sdk-group'', ''gl-texture-group'', ''device-feature-group''}"
      using False by blast
    then show ?thesis
    proof cases
      case known
      obtain a' where eq: "Artifact_attributes (attr # rest) (artifact, ver, d) =
         Artifact_attributes rest (a', ver, d)"
        using known False by (auto simp del: One_nat_def)
      show ?thesis unfolding eq using IH[of a' ver d] False by auto
    next
      case unknown
      define n where "n = diag_Note (''Unknown artifact attribute: '' @ attr_name attr @ '' = ''
                                      @ attr_value attr)"
      have n: "diag_level n = Note" by (simp add: n_def)
      have eq: "Artifact_attributes (attr # rest) (artifact, ver, d) =
         Artifact_attributes rest (artifact, ver, d @ [n])"
        using unknown by (simp add: n_def)
      show ?thesis unfolding eq using IH[of artifact ver "d @ [n]"] False n by auto
    qed
  qed
qed

lemma Artifact_attributes_throws:
  "\<not> (\<forall>attr\<in>set attrs. attr_name attr = ''version'' \<longrightarrow> (\<exists>v. stoi (attr_value attr) = Inr v)) \<Longrightarrow>
     \<exists>e d'. Artifact_attributes attrs (artifact, ver, d) = Inl (e, d')
        \<and> (\<forall>m\<in>set d'. m \<in> set d \<or> diag_level m = Note)"
proof (induction attrs arbitrary: artifact ver d)
  case Nil
  then show ?case by simp
next
  case (Cons attr rest)
  show ?case
  proof (cases "attr_name attr = ''version''")
    case True
    show ?thesis
    proof (cases "stoi (attr_value attr)")
      case (Inl e)
      with True show ?thesis by simp
    next
      case (Inr v)
      with True Cons.prems have "\<not> (\<forall>attr\<in>set rest. attr_name attr = ''version'' \<longrightarrow> (\<exists>v. stoi (attr_value attr) = Inr v))"
        by auto
      from Cons.IH[OF this, of artifact "Some v" d] True Inr show ?thesis by simp
    qed
  next
    case False
    with Cons.prems have rest: "\<not> (\<forall>attr\<in>set rest. attr_name attr = ''version'' \<longrightarrow> (\<exists>v. stoi (attr_value attr) = Inr v))"
      by auto
    note IH = Cons.IH[OF rest]
    consider (known) "attr_name attr \<in> {''name'', ''abi-group'', ''screen-density-group'',
        ''locale-group'', ''android-sdk-group'', ''gl-texture-group'', ''device-feature-group''}"
      | (unknown) "attr_name attr \<notin> {''name'', ''version'', ''abi-group'', ''screen-density-group'',
        ''locale-group'', ''android-sdk-group'', ''gl-texture-group'', ''device-feature-group''}"
      using False by blast
    then show ?thesis
    proof cases
      case known
      obtain a' where eq: "Artifact_attributes (attr # rest) (artifact, ver, d) =
         Artifact_attributes rest (a', ver, d)"
        using known False by (auto simp del: One_nat_def)
      show ?thesis unfolding eq using IH[of a' ver d] by auto
    next
      case unknown
      define n where "n = diag_Note (''Unknown artifact attribute: '' @ attr_name attr @ '' = ''
                                      @ attr_value attr)"
      have n: "diag_level n = Note" by (simp add: n_def)
      have eq: "Artifact_attributes (attr # rest) (artifact, ver, d) =
         Artifact_attributes rest (artifact, ver, d @ [n])"
        using unknown by (simp add: n_def)
      show ?thesis unfolding eq using IH[of artifact ver "d @ [n]"] n by auto
    qed
  qed
qed


lemma ArtifactTagHandler_step:
  assumes "\<forall>attr\<in>set (el_attributes el). attr_name attr = ''version'' \<longrightarrow>
             (\<exists>v. stoi (attr_value attr) = Inr v)"
  shows "\<exists>artifact d.
           ArtifactTagHandler config el =
             Inr (True, config\<lparr>artifacts := artifacts config @ [artifact]\<rparr>, d)
           \<and> (\<not> has_version el \<longrightarrow>
                version artifact =
                  (if artifacts config = [] then 1 else version (last (artifacts config)) + 1))
           \<and> (\<forall>m\<in>set d. diag_level m = Note)"
proof -
  from Artifact_attributes_total[OF assms, of empty_artifact None "[]"]
  obtain artifact' ver' d' where
    run: "Artifact_attributes (el_attributes el) (empty_artifact, None, []) = Inr (artifact', ver', d')"
    and ver: "(\<forall>attr\<in>set (el_attributes el). attr_name attr \<noteq> ''version'') \<longrightarrow> ver' = None"
    and only_notes: "\<forall>m\<in>set d'. diag_level m = Note"
    by auto
  show ?thesis
    using run ver only_notes by (auto simp: ArtifactTagHandler_def has_version_def)
qed

lemma declare_artifacts_versions:
  assumes "\<forall>el\<in>set els. \<forall>attr\<in>set (el_attributes el). attr_name attr = ''version'' \<longrightarrow>
             (\<exists>v. stoi (attr_value attr) = Inr v)"
  shows "\<exists>config' d new.
           declare_artifacts config els = Inr (config', d)
           \<and> artifacts config' = artifacts config @ new
           \<and> length new = length els
           \<and> (\<forall>i<length els. \<not> has_version (els ! i) \<longrightarrow>
                 version (new ! i) =
                   (if i = 0
                    then (if artifacts config = [] then 1 else version (last (artifacts config)) + 1)
                    else version (new ! (i - 1)) + 1))"
  using assms
proof (induction els arbitrary: config)
  case Nil
  then show ?case by simp
next
  case (Cons el els)
  have el: "\<forall>attr\<in>set (el_attributes el). attr_name attr = ''version'' \<longrightarrow>
             (\<exists>v. stoi (attr_value attr) = Inr v)"
    using Cons.prems by simp
  have els: "\<forall>el\<in>set els. \<forall>attr\<in>set (el_attributes el). attr_name attr = ''version'' \<longrightarrow>
             (\<exists>v. stoi (attr_value attr) = Inr v)"
    using Cons.prems by simp
  from ArtifactTagHandler_step[OF el, of config] obtain a d1 where
    h: "ArtifactTagHandler config el = Inr (True, config\<lparr>artifacts := artifacts config @ [a]\<rparr>, d1)"
    and va: "\<not> has_version el \<longrightarrow>
                version a = (if artifacts config = [] then 1 else version (last (artifacts config)) + 1)"
    by blast
  let ?c1 = "config\<lparr>artifacts := artifacts config @ [a]\<rparr>"
  from Cons.IH[OF els, of ?c1] obtain config' d2 new' where
    run: "declare_artifacts ?c1 els = Inr (config', d2)"
    and arts: "artifacts config' = artifacts ?c1 @ new'"
    and len: "length new' = length els"
    and vs: "\<forall>i<length els. \<not> has_version (els ! i) \<longrightarrow>
                 version (new' ! i) =
                   (if i = 0
                    then (if artifacts ?c1 = [] then 1 else version (last (artifacts ?c1)) + 1)
                    else version (new' ! (i - 1)) + 1)"
    by blast
  have run': "declare_artifacts config (el # els) = Inr (config', d1 @ d2)"
    using h run by simp
  have arts': "artifacts config' = artifacts config @ (a # new')"
    using arts by simp
  have vs': "\<forall>i<length (el # els). \<not> has_version ((el # els) ! i) \<longrightarrow>
                 version ((a # new') ! i) =
                   (if i = 0
                    then (if artifacts config = [] then 1 else version (last (artifacts config)) + 1)
                    else version ((a # new') ! (i - 1)) + 1)"
  proof (intro allI impI)
    fix i assume i: "i < length (el # els)" and nv: "\<not> has_version ((el # els) ! i)"
    show "version ((a # new') ! i) =
            (if i = 0
             then (if artifacts config = [] then 1 else version (last (artifacts config)) + 1)
             else version ((a # new') ! (i - 1)) + 1)"
    proof (cases i)
      case 0
      with nv va show ?thesis by simp
    next
      case (Suc i')
      with i nv have "i' < length els" "\<not> has_version (els ! i')" by simp_all
      with vs have "version (new' ! i') =
          (if i' = 0 then version a + 1 else version (new' ! (i' - 1)) + 1)"
        by simp
      then show ?thesis using Suc by (cases i') simp_all
    qed
  qed
  from run' arts' len vs' show ?case
    by (intro exI[of _ config'] exI[of _ "d1 @ d2"] exI[of _ "a # new'"]) simp
qed

lemma sint_succ:
  fixes x :: int32
  assumes "sint x < 2147483647"
  shows "sint (x + 1) = sint x + 1"
proof -
  have "sint (x + 1) = signed_take_bit 31 (sint x + 1)"
    by (simp add: sint_word_ariths)
  also have "\<dots> = sint x + 1"
    using assms sint_ge[of x] by (intro signed_take_bit_int_eq_self) simp_all
  finally show ?thesis .
qed

lemma GlTexture_paths_eq:
  "fst (GlTexture_paths els cn (result, valid, diag)) =
     result\<lparr>texture_paths := texture_paths result @
        concat (map (\<lambda>e. if el_name e = ''texture-path''
                          then map TrimWhitespace (all_texts (el_children e)) else []) els)\<rparr>"
  by (induction els arbitrary: result valid diag) simp_all

lemma GlTextureGroup_children_entries:
  "\<exists>entries result' valid' diag'.
     GlTextureGroup_children cs (grp, result, valid, diag) = (grp @ entries, result', valid', diag')
     \<and> length entries = length cs
     \<and> (\<forall>k<length cs. texture_paths (entries ! k) =
            texture_paths result @ concat (map own_texture_paths (take (Suc k) cs)))"
proof (induction cs arbitrary: grp result valid diag)
  case Nil
  then show ?case by simp
next
  case (Cons child rest)
  obtain result1 valid1 diag1 where step:
    "(if el_name child \<noteq> ''gl-texture''
      then (result, False,
            diag @ [diag_Error (''Unexpected element in GL texture group: '' @ el_name child)])
      else GlTexture_paths (GetChildElements child) (el_name child)
             (case find (\<lambda>attr. attr_name attr = ''name'') (el_attributes child) of
                Some attr \<Rightarrow> result\<lparr>gl_name := attr_value attr\<rparr>
              | None \<Rightarrow> result,
              valid, diag)) = (result1, valid1, diag1)"
    by (metis prod_cases3)
  have tp: "texture_paths result1 = texture_paths result @ own_texture_paths child"
  proof (cases "el_name child = ''gl-texture''")
    case True
    with step have "result1 = fst (GlTexture_paths (GetChildElements child) (el_name child)
             (case find (\<lambda>attr. attr_name attr = ''name'') (el_attributes child) of
                Some attr \<Rightarrow> result\<lparr>gl_name := attr_value attr\<rparr>
              | None \<Rightarrow> result,
              valid, diag))"
      by simp
    then show ?thesis
      using True by (simp add: GlTexture_paths_eq own_texture_paths_def split: option.splits)
  next
    case False
    with step show ?thesis by (simp add: own_texture_paths_def)
  qed
  from Cons.IH[of "grp @ [result1]" result1 valid1 diag1]
  obtain entries' result' valid' diag' where
    run: "GlTextureGroup_children rest (grp @ [result1], result1, valid1, diag1) =
            ((grp @ [result1]) @ entries', result', valid', diag')"
    and len: "length entries' = length rest"
    and ps: "\<forall>k<length rest. texture_paths (entries' ! k) =
            texture_paths result1 @ concat (map own_texture_paths (take (Suc k) rest))"
    by blast
  have run': "GlTextureGroup_children (child # rest) (grp, result, valid, diag) =
            (grp @ (result1 # entries'), result', valid', diag')"
    using run step by (simp del: GlTexture_paths.simps)
  have ps': "\<forall>k<length (child # rest). texture_paths ((result1 # entries') ! k) =
            texture_paths result @ concat (map own_texture_paths (take (Suc k) (child # rest)))"
  proof (intro allI impI)
    fix k assume "k < length (child # rest)"
    then show "texture_paths ((result1 # entries') ! k) =
            texture_paths result @ concat (map own_texture_paths (take (Suc k) (child # rest)))"
      using ps tp by (cases k) simp_all
  qed
  from run' len ps' show ?case
    by (intro exI[of _ "result1 # entries'"] exI[of _ result'] exI[of _ valid'] exI[of _ diag']) simp
qed

section \<open>The claims\<close>

text \<open>Unfolding rules that evaluate the model on the example inputs.\<close>

lemma suffix_eval: "suffix xs ys = prefix (rev xs) (rev ys)"
  by (rule suffix_to_prefix)

lemmas eval_defs =
  plain_artifact_def empty_artifact_def empty_config_def
  Parse_def std_sort_def artifact_eq_def ToOutputArtifact_def Name_def ToBaseName_def
  ToArtifactName_def GetFilename_def GetExtension_def ReplacePlaceholder_def
  CopyXmlReferences_def lookup_error_def str_replace_def Let_def suffix_eval

lemmas xml_eval_defs =
  artifact_element_def empty_artifact_def empty_config_def ArtifactTagHandler_def
  GetLabel_def GetChildElements_def TrimWhitespace_def isspace_def isdigit_def
  digit_val_def stoi_def kStringToAbiMap_def Let_def

text \<open>
  C1. Resolution is all-or-nothing. Whenever one artifact of the configuration does not
  resolve (\<open>ToOutputArtifact\<close> returns nothing for it), and in particular whenever it
  refers to a group label that its axis does not have, \<open>Parse\<close> returns nothing: no list
  with the artifacts that did resolve is returned.
\<close>

theorem Parse_all_or_nothing:
  assumes "artifact \<in> set (artifacts config)"
    and "fst (ToOutputArtifact artifact (GetFilename apk_path) config) = None
         \<or> (\<exists>l. abi_group artifact = Some l \<and> abi_groups config l = None)
         \<or> (\<exists>l. locale_group artifact = Some l \<and> locale_groups config l = None)
         \<or> (\<exists>l. screen_density_group artifact = Some l \<and> screen_density_groups config l = None)
         \<or> (\<exists>l. device_feature_group artifact = Some l \<and> device_feature_groups config l = None)
         \<or> (\<exists>l. gl_texture_group artifact = Some l \<and> gl_texture_groups config l = None)
         \<or> (\<exists>l. android_sdk_group artifact = Some l \<and> android_sdk_groups config l = None)"
  shows "fst (Parse (Some config) apk_path) = None"
proof -
  have "fst (ToOutputArtifact artifact (GetFilename apk_path) config) = None"
    using assms(2) ToOutputArtifact_missing_reference[of artifact config "GetFilename apk_path"]
    by blast
  with assms(1) show ?thesis by (rule Parse_fails)
qed

text \<open>In \<open>missing_config\<close> the first artifact resolves and the second refers to the
  missing group arm: nothing is returned.\<close>

theorem Parse_all_or_nothing_witness:
  "fst (ToOutputArtifact (plain_artifact ''a.apk'' 1) ''app.apk'' missing_config) \<noteq> None
   \<and> fst (Parse (Some missing_config) ''out/app.apk'') = None"
proof -
  have "fst (Parse (Some missing_config) ''out/app.apk'') = None"
    by (rule Parse_all_or_nothing[of arm_artifact])
       (simp_all add: missing_config_def arm_artifact_def eval_defs)
  moreover have "fst (ToOutputArtifact (plain_artifact ''a.apk'' 1) ''app.apk'' missing_config) \<noteq> None"
    by (simp add: missing_config_def arm_artifact_def eval_defs)
  ultimately show ?thesis by simp
qed

text \<open>
  C2, as the code has it. \<open>Parse\<close> resolves the sorted copy of the templates, so when the
  versions are pairwise different and every template resolves, the returned list holds the
  resolved templates in ascending order of version: it is the image of \<open>std_sort\<close> of the
  declared list, which is a permutation of the declared list with strictly increasing
  versions.
\<close>

theorem Parse_version_order:
  assumes "distinct (map version (artifacts config))"
    and "\<forall>a\<in>set (artifacts config).
           fst (ToOutputArtifact a (GetFilename apk_path) config) \<noteq> None"
  shows "\<exists>outs. fst (Parse (Some config) apk_path) = Some outs
           \<and> map Some outs = map (\<lambda>a. fst (ToOutputArtifact a (GetFilename apk_path) config))
                                 (std_sort (artifacts config))
           \<and> sorted_wrt artifact_less (std_sort (artifacts config))
           \<and> mset (std_sort (artifacts config)) = mset (artifacts config)"
proof -
  have "map Some (List.map_filter (\<lambda>a. fst (ToOutputArtifact a (GetFilename apk_path) config))
                    (std_sort (artifacts config)))
        = map (\<lambda>a. fst (ToOutputArtifact a (GetFilename apk_path) config))
              (std_sort (artifacts config))"
    using assms(2) by (intro map_filter_all_Some) (simp add: set_std_sort)
  moreover have "mset (std_sort (artifacts config)) = mset (artifacts config)"
    by (simp add: std_sort_def)
  ultimately show ?thesis
    using assms by (simp add: Parse_distinct sorted_wrt_std_sort)
qed

theorem Parse_version_order_witness:
  "\<exists>outs. fst (Parse (Some reversed_config) ''app.apk'') = Some outs
         \<and> map Some outs = map (\<lambda>a. fst (ToOutputArtifact a (GetFilename ''app.apk'') reversed_config))
                               (std_sort (artifacts reversed_config))
         \<and> sorted_wrt artifact_less (std_sort (artifacts reversed_config))
         \<and> mset (std_sort (artifacts reversed_config)) = mset (artifacts reversed_config)"
  by (rule Parse_version_order) (simp_all add: reversed_config_def eval_defs)

text \<open>C2 as stated fails: in \<open>reversed_config\<close> the artifact named b.apk (version 2) is
  declared before the one named a.apk (version 1), both resolve, and the returned list has
  a.apk first.\<close>

theorem Parse_declaration_order_counterexample:
  "map name (artifacts reversed_config) = [Some ''b.apk'', Some ''a.apk'']
   \<and> map version (artifacts reversed_config) = [2, 1]
   \<and> map_option (map out_name) (fst (Parse (Some reversed_config) ''app.apk''))
       = Some [''a.apk'', ''b.apk'']"
  by (simp add: reversed_config_def eval_defs)

text \<open>
  C3. When two templates of the configuration have the same version, \<open>Parse\<close> returns
  nothing, and the only message logged is the one of the duplicate check: no artifact has
  been resolved.
\<close>

theorem Parse_duplicate_versions:
  assumes "i < j" and "j < length (artifacts config)"
    and "version (artifacts config ! i) = version (artifacts config ! j)"
  shows "Parse (Some config) apk_path =
           (None, [diag_Error ''Configuration has duplicate versions''])"
proof -
  have "\<not> distinct (map version (artifacts config))"
  proof
    assume "distinct (map version (artifacts config))"
    then have "(map version (artifacts config) ! i = map version (artifacts config) ! j) = (i = j)"
      using assms(1,2) by (intro nth_eq_iff_index_eq) simp_all
    with assms show False by simp
  qed
  then show ?thesis by (rule Parse_duplicates)
qed

theorem Parse_duplicate_versions_witness:
  "Parse (Some duplicate_config) ''out/app.apk'' =
     (None, [diag_Error ''Configuration has duplicate versions''])"
  by (rule Parse_duplicate_versions[of 0 1]) (simp_all add: duplicate_config_def eval_defs)

text \<open>
  C4, as the code has it. Each axis placeholder is looked for in the name string as it
  stands when its turn comes (\<open>name_before_axis\<close>: the format after \<open>ToBaseName\<close> and after
  the replacements of the axes before it), not in the format as written. With \<open>s\<close> that
  string, \<open>p\<close> the placeholder of the \<open>k\<close>-th axis and \<open>v\<close> the artifact's reference for it:
  if \<open>p\<close> occurs exactly once in \<open>s\<close> and the axis is referenced, the occurrence is replaced
  by the label, and formatting goes on with the result unless \<open>p\<close> occurs in it again, in
  which case it fails; if \<open>p\<close> occurs exactly once and the axis is not referenced,
  formatting fails; if \<open>p\<close> does not occur and the axis is referenced, formatting fails; if
  \<open>p\<close> occurs more than once, formatting fails; if \<open>p\<close> does not occur and the axis is
  not referenced, the string is unchanged.
\<close>

theorem ToArtifactName_axis_placeholder:
  assumes k: "k < 6" and pv: "axis_placeholders artifact ! k = (p, v)"
    and s: "name_before_axis artifact format apk_name k = Some s"
  shows "(\<forall>i l. occurrences p s = [i] \<and> v = Some l \<longrightarrow>
            name_before_axis artifact format apk_name (Suc k) =
              (if occurrences p (str_replace s i (length p) l) = []
               then Some (str_replace s i (length p) l) else None))
       \<and> (length (occurrences p s) = 1 \<and> v = None \<longrightarrow>
            fst (ToArtifactName artifact format apk_name) = None)
       \<and> (occurrences p s = [] \<and> v \<noteq> None \<longrightarrow>
            fst (ToArtifactName artifact format apk_name) = None)
       \<and> (1 < length (occurrences p s) \<longrightarrow>
            fst (ToArtifactName artifact format apk_name) = None)
       \<and> (occurrences p s = [] \<and> v = None \<longrightarrow>
            name_before_axis artifact format apk_name (Suc k) = Some s)
       \<and> name_before_axis artifact format apk_name 0 = fst (ToBaseName format apk_name)
       \<and> name_before_axis artifact format apk_name 6 = fst (ToArtifactName artifact format apk_name)"
proof -
  let ?steps = "axis_placeholders artifact"
  let ?s0 = "fst (ToBaseName format apk_name)"
  have kl: "k < length ?steps" using k by (simp add: length_axis_placeholders)
  have s': "working_name (take k ?steps) ?s0 = Some s" using s by (simp add: name_before_axis_def)
  have step: "name_before_axis artifact format apk_name (Suc k) =
      (if fst (ReplacePlaceholder p v s) then Some (fst (snd (ReplacePlaceholder p v s))) else None)"
    unfolding name_before_axis_def by (rule working_name_step[OF kl pv s'])
  have fails: "fst (ReplacePlaceholder p v s) = False \<Longrightarrow>
      fst (ToArtifactName artifact format apk_name) = None"
    unfolding ToArtifactName_working by (rule working_name_fails[OF kl pv s'])
  from axis_placeholder_shape[OF k pv] obtain r where bf: "p = CHR ''$'' # r" "CHR ''$'' \<notin> set r"
    by blast
  have c1: "\<forall>i l. occurrences p s = [i] \<and> v = Some l \<longrightarrow>
            name_before_axis artifact format apk_name (Suc k) =
              (if occurrences p (str_replace s i (length p) l) = []
               then Some (str_replace s i (length p) l) else None)"
    by (auto simp: step ReplacePlaceholder_first)
  have c2: "length (occurrences p s) = 1 \<and> v = None \<longrightarrow>
            fst (ToArtifactName artifact format apk_name) = None"
  proof
    assume a: "length (occurrences p s) = 1 \<and> v = None"
    then have "occurrences p s \<noteq> []" by auto
    with a show "fst (ToArtifactName artifact format apk_name) = None"
      by (auto intro!: fails ReplacePlaceholder_present_unreferenced)
  qed
  have c3: "occurrences p s = [] \<and> v \<noteq> None \<longrightarrow>
            fst (ToArtifactName artifact format apk_name) = None"
    by (auto intro!: fails ReplacePlaceholder_absent_referenced)
  have c4: "1 < length (occurrences p s) \<longrightarrow>
            fst (ToArtifactName artifact format apk_name) = None"
    by (auto intro!: fails ReplacePlaceholder_repeated[OF bf])
  have c5: "occurrences p s = [] \<and> v = None \<longrightarrow>
            name_before_axis artifact format apk_name (Suc k) = Some s"
    by (auto simp: step ReplacePlaceholder_absent_unreferenced)
  have c6: "name_before_axis artifact format apk_name 0 = fst (ToBaseName format apk_name)"
    by (simp add: name_before_axis_def)
  have c7: "name_before_axis artifact format apk_name 6 = fst (ToArtifactName artifact format apk_name)"
    by (simp add: ToArtifactName_name_before_axis)
  from c1 c2 c3 c4 c5 c6 c7 show ?thesis by blast
qed

text \<open>For the format \<^verbatim>\<open>${basename}.${abi}\<close>, the input app.apk and an artifact that
  refers to the group arm, the string that reaches the first axis is
  \<^verbatim>\<open>app.${abi}.apk\<close>, and the replacement gives app.arm.apk. For the same artifact the
  format \<^verbatim>\<open>${basename}\<close>, where the placeholder is missing, and the format
  \<^verbatim>\<open>${abi}.${abi}\<close>, where it occurs twice, both fail.\<close>

theorem ToArtifactName_axis_placeholder_witness:
  "name_before_axis abi_artifact ''${basename}.${abi}'' ''app.apk'' 0 = Some ''app.${abi}.apk''
   \<and> occurrences ''${abi}'' ''app.${abi}.apk'' = [4]
   \<and> name_before_axis abi_artifact ''${basename}.${abi}'' ''app.apk'' (Suc 0) = Some ''app.arm.apk''
   \<and> occurrences ''${abi}'' ''app.apk'' = []
   \<and> fst (ToArtifactName abi_artifact ''${basename}'' ''app.apk'') = None
   \<and> occurrences ''${abi}'' ''${abi}.${abi}.apk'' = [0, 7]
   \<and> fst (ToArtifactName abi_artifact ''${abi}.${abi}'' ''app.apk'') = None"
proof -
  have pv: "axis_placeholders abi_artifact ! 0 = (''${abi}'', Some ''arm'')"
    by (simp add: axis_placeholders_def abi_artifact_def)
  have s: "name_before_axis abi_artifact ''${basename}.${abi}'' ''app.apk'' 0 = Some ''app.${abi}.apk''"
    by (simp add: name_before_axis_def eval_defs)
  have occ: "occurrences ''${abi}'' ''app.${abi}.apk'' = [4]"
    by (simp add: occurrences_Cons occurrences_Nil)
  have occ': "occurrences ''${abi}'' ''app.arm.apk'' = []"
    by (simp add: occurrences_Cons occurrences_Nil)
  have once: "name_before_axis abi_artifact ''${basename}.${abi}'' ''app.apk'' (Suc 0) = Some ''app.arm.apk''"
    using ToArtifactName_axis_placeholder[OF _ pv s] occ occ' by (simp add: str_replace_def)
  have s0: "name_before_axis abi_artifact ''${basename}'' ''app.apk'' 0 = Some ''app.apk''"
    by (simp add: name_before_axis_def eval_defs)
  have occ0: "occurrences ''${abi}'' ''app.apk'' = []"
    by (simp add: occurrences_Cons occurrences_Nil)
  have missing: "fst (ToArtifactName abi_artifact ''${basename}'' ''app.apk'') = None"
    using ToArtifactName_axis_placeholder[OF _ pv s0] occ0 by simp
  have s2: "name_before_axis abi_artifact ''${abi}.${abi}'' ''app.apk'' 0 = Some ''${abi}.${abi}.apk''"
    by (simp add: name_before_axis_def eval_defs)
  have occ2: "occurrences ''${abi}'' ''${abi}.${abi}.apk'' = [0, 7]"
    by (simp add: occurrences_Cons occurrences_Nil)
  have twice: "fst (ToArtifactName abi_artifact ''${abi}.${abi}'' ''app.apk'') = None"
    using ToArtifactName_axis_placeholder[OF _ pv s2] occ2 by simp
  from s occ once occ0 missing occ2 twice show ?thesis by simp
qed

text \<open>C4 as stated fails where a label brings the text of a later placeholder with it: the
  format \<^verbatim>\<open>${abi}\<close> does not contain the texture placeholder, the artifact refers to a
  texture group, and formatting succeeds, because the architecture label is
  \<^verbatim>\<open>${gl}\<close>.\<close>

theorem ToArtifactName_placeholder_counterexample:
  "occurrences ''${gl}'' ''${abi}'' = []
   \<and> gl_texture_group nested_artifact = Some ''t''
   \<and> fst (ToArtifactName nested_artifact ''${abi}'' ''app.apk'') = Some ''t.apk''"
  by (simp add: nested_artifact_def occurrences_Cons occurrences_Nil eval_defs)

text \<open>
  C5, as the code has it. An artifact with a name of its own only goes through
  \<open>ToBaseName\<close>: no axis placeholder is looked for in a literal name. For an artifact
  without a name of its own that refers to a texture group: if the global format, as it
  stands when the texture placeholder's turn comes, does not contain the texture
  placeholder (or there is no global format, or an earlier step already failed), the
  artifact does not resolve and \<open>Parse\<close> returns nothing.
\<close>

theorem texture_placeholder_required:
  assumes "artifact \<in> set (artifacts config)"
    and "name artifact = None"
    and "gl_texture_group artifact = Some l"
    and "\<forall>format s. artifact_format config = Some format \<and>
            name_before_axis artifact format (GetFilename apk_path) 5 = Some s \<longrightarrow>
            occurrences ''${gl}'' s = []"
  shows "fst (ToOutputArtifact artifact (GetFilename apk_path) config) = None
       \<and> fst (Parse (Some config) apk_path) = None"
proof -
  have "fst (ToOutputArtifact artifact (GetFilename apk_path) config) = None"
  proof (cases "artifact_format config")
    case None
    with assms(2) show ?thesis by (simp add: ToOutputArtifact_shape)
  next
    case (Some format)
    with assms(4) have "\<forall>s. name_before_axis artifact format (GetFilename apk_path) 5 = Some s \<longrightarrow>
        occurrences ''${gl}'' s = []"
      by simp
    with assms(3) have "fst (ToArtifactName artifact format (GetFilename apk_path)) = None"
      by (rule ToArtifactName_texture_absent)
    with assms(2) Some show ?thesis by (simp add: ToOutputArtifact_shape)
  qed
  moreover from assms(1) this have "fst (Parse (Some config) apk_path) = None"
    by (rule Parse_fails)
  ultimately show ?thesis by simp
qed

text \<open>The format \<^verbatim>\<open>${basename}.${ext}\<close> has no texture placeholder; the artifact of
  \<open>format_texture_config\<close> refers to the texture group dxt1, which exists; nothing is
  returned.\<close>

theorem texture_placeholder_required_witness:
  "name_before_axis format_texture_artifact ''${basename}.${ext}'' ''app.apk'' 5 = Some ''app.apk''
   \<and> gl_texture_groups format_texture_config ''dxt1'' = Some dxt1_textures
   \<and> fst (Parse (Some format_texture_config) ''app.apk'') = None"
proof -
  have s: "name_before_axis format_texture_artifact ''${basename}.${ext}'' ''app.apk'' 5 = Some ''app.apk''"
    by (simp add: name_before_axis_def axis_placeholders_def format_texture_artifact_def eval_defs)
  have "fst (ToOutputArtifact format_texture_artifact (GetFilename ''app.apk'') format_texture_config) = None
       \<and> fst (Parse (Some format_texture_config) ''app.apk'') = None"
  proof (rule texture_placeholder_required[of _ _ "''dxt1''"])
    show "format_texture_artifact \<in> set (artifacts format_texture_config)"
      by (simp add: format_texture_config_def)
    show "name format_texture_artifact = None"
      by (simp add: format_texture_artifact_def empty_artifact_def)
    show "gl_texture_group format_texture_artifact = Some ''dxt1''"
      by (simp add: format_texture_artifact_def)
    show "\<forall>format s. artifact_format format_texture_config = Some format \<and>
            name_before_axis format_texture_artifact format (GetFilename ''app.apk'') 5 = Some s \<longrightarrow>
            occurrences ''${gl}'' s = []"
      using s by (auto simp: format_texture_config_def GetFilename_def occurrences_Cons occurrences_Nil)
  qed
  with s show ?thesis by (simp add: format_texture_config_def)
qed

text \<open>C5 as stated fails for a literal name: the artifact of \<open>literal_texture_config\<close> is
  named foo.apk, which has no texture placeholder, refers to the texture group dxt1, and
  resolves.\<close>

theorem texture_placeholder_counterexample:
  "name literal_texture_artifact = Some ''foo.apk''
   \<and> occurrences ''${gl}'' ''foo.apk'' = []
   \<and> gl_texture_group literal_texture_artifact = Some ''dxt1''
   \<and> fst (Parse (Some literal_texture_config) ''app.apk'')
       = Some [\<lparr>out_name = ''foo.apk'', abis = [], screen_densities = [], locales = [],
                android_sdk = None, features = [], textures = dxt1_textures\<rparr>]"
  by (simp add: literal_texture_config_def literal_texture_artifact_def dxt1_textures_def
      occurrences_Cons occurrences_Nil eval_defs)

text \<open>
  C6. Version auto-assignment. When the artifact handler runs over a sequence of artifact
  declarations, starting from a configuration with no artifact (every version attribute
  being one that \<open>stoi\<close> reads), one artifact is appended per declaration; the first
  declaration, when it has no version attribute, gets version 1, and every later declaration
  with no version attribute gets the version of the artifact declared just before it plus
  one, whether that version was explicit or assigned. The addition is the one of the
  32-bit \<^verbatim>\<open>int\<close>; as long as the preceding version is below the largest \<^verbatim>\<open>int\<close> it is
  the integer successor.
\<close>

theorem version_auto_assignment:
  assumes "artifacts config = []"
    and "\<forall>el\<in>set els. \<forall>attr\<in>set (el_attributes el). attr_name attr = ''version'' \<longrightarrow>
           (\<exists>v. stoi (attr_value attr) = Inr v)"
  shows "\<exists>config' d.
           declare_artifacts config els = Inr (config', d)
           \<and> length (artifacts config') = length els
           \<and> (\<forall>i<length els. \<not> has_version (els ! i) \<longrightarrow>
                 version (artifacts config' ! i) =
                   (if i = 0 then 1 else version (artifacts config' ! (i - 1)) + 1)
                 \<and> (0 < i \<and> sint (version (artifacts config' ! (i - 1))) < 2147483647 \<longrightarrow>
                      sint (version (artifacts config' ! i)) =
                        sint (version (artifacts config' ! (i - 1))) + 1))"
proof -
  from declare_artifacts_versions[OF assms(2), of config] obtain config' d new where
    run: "declare_artifacts config els = Inr (config', d)"
    and arts: "artifacts config' = artifacts config @ new"
    and len: "length new = length els"
    and vs: "\<forall>i<length els. \<not> has_version (els ! i) \<longrightarrow>
                 version (new ! i) =
                   (if i = 0
                    then (if artifacts config = [] then 1 else version (last (artifacts config)) + 1)
                    else version (new ! (i - 1)) + 1)"
    by blast
  have new: "artifacts config' = new" using arts assms(1) by simp
  have "\<forall>i<length els. \<not> has_version (els ! i) \<longrightarrow>
                 version (new ! i) = (if i = 0 then 1 else version (new ! (i - 1)) + 1)
                 \<and> (0 < i \<and> sint (version (new ! (i - 1))) < 2147483647 \<longrightarrow>
                      sint (version (new ! i)) = sint (version (new ! (i - 1))) + 1)"
  proof (intro allI impI)
    fix i assume i: "i < length els" and nv: "\<not> has_version (els ! i)"
    with vs assms(1) have v: "version (new ! i) = (if i = 0 then 1 else version (new ! (i - 1)) + 1)"
      by simp
    moreover have "0 < i \<and> sint (version (new ! (i - 1))) < 2147483647 \<longrightarrow>
        sint (version (new ! i)) = sint (version (new ! (i - 1))) + 1"
      using v by (auto simp: sint_succ)
    ultimately show "version (new ! i) = (if i = 0 then 1 else version (new ! (i - 1)) + 1)
                 \<and> (0 < i \<and> sint (version (new ! (i - 1))) < 2147483647 \<longrightarrow>
                      sint (version (new ! i)) = sint (version (new ! (i - 1))) + 1)"
      by blast
  qed
  with run len new show ?thesis by auto
qed

text \<open>Three declarations, the second with version 5: the versions are 1, 5 and 6.\<close>

theorem version_auto_assignment_witness:
  "(\<exists>config' d.
      declare_artifacts empty_config three_artifacts = Inr (config', d)
      \<and> length (artifacts config') = length three_artifacts
      \<and> (\<forall>i<length three_artifacts. \<not> has_version (three_artifacts ! i) \<longrightarrow>
            version (artifacts config' ! i) =
              (if i = 0 then 1 else version (artifacts config' ! (i - 1)) + 1)
            \<and> (0 < i \<and> sint (version (artifacts config' ! (i - 1))) < 2147483647 \<longrightarrow>
                 sint (version (artifacts config' ! i)) =
                   sint (version (artifacts config' ! (i - 1))) + 1)))
   \<and> map_sum fst (\<lambda>(c, d). map version (artifacts c)) (declare_artifacts empty_config three_artifacts)
       = Inr [1, 5, 6]"
proof -
  have "\<exists>config' d.
      declare_artifacts empty_config three_artifacts = Inr (config', d)
      \<and> length (artifacts config') = length three_artifacts
      \<and> (\<forall>i<length three_artifacts. \<not> has_version (three_artifacts ! i) \<longrightarrow>
            version (artifacts config' ! i) =
              (if i = 0 then 1 else version (artifacts config' ! (i - 1)) + 1)
            \<and> (0 < i \<and> sint (version (artifacts config' ! (i - 1))) < 2147483647 \<longrightarrow>
                 sint (version (artifacts config' ! i)) =
                   sint (version (artifacts config' ! (i - 1))) + 1))"
    by (rule version_auto_assignment) (simp_all add: three_artifacts_def xml_eval_defs)
  moreover have "map_sum fst (\<lambda>(c, d). map version (artifacts c))
      (declare_artifacts empty_config three_artifacts) = Inr [1, 5, 6]"
    by (simp add: three_artifacts_def xml_eval_defs)
  ultimately show ?thesis by blast
qed

text \<open>
  C7. \<open>ToOutputArtifact\<close> returns an artifact \<open>out\<close> exactly when the name resolves to
  the name of \<open>out\<close> and, for every axis, either the artifact has no reference and the list
  of \<open>out\<close> for that axis is empty, or the referenced label exists and its group is the list
  of \<open>out\<close>, element for element and in the same order. (The SDK axis holds one entry, not a
  list.) An axis without reference never makes the resolution fail.
\<close>

theorem ToOutputArtifact_references:
  "fst (ToOutputArtifact artifact apk_name config) = Some out \<longleftrightarrow>
     (case name artifact of
        Some _ \<Rightarrow> fst (Name artifact apk_name)
      | None \<Rightarrow> (case artifact_format config of
                   Some f \<Rightarrow> fst (ToArtifactName artifact f apk_name)
                 | None \<Rightarrow> None)) = Some (out_name out)
     \<and> (case abi_group artifact of
          None \<Rightarrow> abis out = []
        | Some l \<Rightarrow> abi_groups config l = Some (abis out))
     \<and> (case locale_group artifact of
          None \<Rightarrow> locales out = []
        | Some l \<Rightarrow> locale_groups config l = Some (locales out))
     \<and> (case screen_density_group artifact of
          None \<Rightarrow> screen_densities out = []
        | Some l \<Rightarrow> screen_density_groups config l = Some (screen_densities out))
     \<and> (case device_feature_group artifact of
          None \<Rightarrow> features out = []
        | Some l \<Rightarrow> device_feature_groups config l = Some (features out))
     \<and> (case gl_texture_group artifact of
          None \<Rightarrow> textures out = []
        | Some l \<Rightarrow> gl_texture_groups config l = Some (textures out))
     \<and> (case android_sdk_group artifact of
          None \<Rightarrow> android_sdk out = None
        | Some l \<Rightarrow> android_sdk out \<noteq> None \<and> android_sdk_groups config l = android_sdk out)"
  by (rule ToOutputArtifact_Some_iff)

text \<open>In \<open>arm_config\<close> the artifact that refers to the group arm resolves with the two
  entries of the group, in their order.\<close>

theorem ToOutputArtifact_references_witness:
  "fst (ToOutputArtifact arm_artifact ''app.apk'' arm_config)
     = Some \<lparr>out_name = ''b.apk'', abis = [kArmeV6, kArmV7a], screen_densities = [],
             locales = [], android_sdk = None, features = [], textures = []\<rparr>"
  unfolding ToOutputArtifact_references
  by (simp add: arm_config_def arm_artifact_def eval_defs)

text \<open>
  C8. The specification asks that an \<^verbatim>\<open>abi\<close> entry whose text is not one of the eight
  architecture strings be reported through the diagnostics, and that the entries and groups
  beside it still be processed. The handler does not do so: \<^verbatim>\<open>kStringToAbiMap.at\<close>
  throws \<^verbatim>\<open>std::out_of_range\<close> for such a text. On the group \<open>bogus_abi_group\<close>, whose
  first entry is unknown and whose second entry is x86, nothing is logged, the second entry
  is not read and the handler does not return. (The density and locale handlers log an
  error, clear \<^verbatim>\<open>valid\<close> and go on, and so does this handler for a child that is not an
  \<^verbatim>\<open>abi\<close> element.)
\<close>

theorem AbiGroupTagHandler_unknown_abi_throws:
  "AbiGroupTagHandler empty_config bogus_abi_group = Inl (out_of_range, [])"
  by (simp add: AbiGroupTagHandler_def bogus_abi_group_def GetLabel_def GetChildElements_def
      TrimWhitespace_def isspace_def kStringToAbiMap_def)

text \<open>
  C9. In the texture group handler the accumulator is declared before the child loop, is
  never reset and is pushed once per child: for a group element with a label, the group of
  that label grows by one entry per child element (whatever the child's name), and the entry
  pushed for the \<open>k\<close>-th child holds the texture paths of all the children up to and
  including the \<open>k\<close>-th.
\<close>

theorem GlTextureGroupTagHandler_accumulates:
  assumes "fst (GetLabel root_element) \<noteq> []"
  shows "\<exists>entries.
           gl_texture_groups (fst (snd (GlTextureGroupTagHandler config root_element)))
               (fst (GetLabel root_element))
             = Some ((case gl_texture_groups config (fst (GetLabel root_element)) of
                        Some g \<Rightarrow> g | None \<Rightarrow> []) @ entries)
           \<and> length entries = length (GetChildElements root_element)
           \<and> (\<forall>k<length (GetChildElements root_element).
                 texture_paths (entries ! k) =
                   concat (map own_texture_paths (take (Suc k) (GetChildElements root_element))))"
proof -
  obtain label d0 where gl: "GetLabel root_element = (label, d0)" by (cases "GetLabel root_element")
  with assms have label: "label \<noteq> []" by simp
  let ?grp = "case gl_texture_groups config label of Some g \<Rightarrow> g | None \<Rightarrow> []"
  from GlTextureGroup_children_entries[of "GetChildElements root_element" ?grp
      "\<lparr>gl_name = '''', texture_paths = []\<rparr>" True d0]
  obtain entries result' valid' diag' where
    run: "GlTextureGroup_children (GetChildElements root_element)
            (?grp, \<lparr>gl_name = '''', texture_paths = []\<rparr>, True, d0) =
          (?grp @ entries, result', valid', diag')"
    and len: "length entries = length (GetChildElements root_element)"
    and ps: "\<forall>k<length (GetChildElements root_element). texture_paths (entries ! k) =
            texture_paths \<lparr>gl_name = '''', texture_paths = []\<rparr> @
              concat (map own_texture_paths (take (Suc k) (GetChildElements root_element)))"
    by blast
  have "gl_texture_groups (fst (snd (GlTextureGroupTagHandler config root_element))) label
          = Some (?grp @ entries)"
    using gl label run by (simp add: GlTextureGroupTagHandler_def)
  with len ps gl show ?thesis by auto
qed

text \<open>The group \<open>texture_group\<close> has three children, the second of which is not a texture:
  three entries are pushed, with the paths of the first child, of the first child again, and
  of the first and third children.\<close>

theorem GlTextureGroupTagHandler_accumulates_witness:
  "(\<exists>entries.
      gl_texture_groups (fst (snd (GlTextureGroupTagHandler empty_config texture_group)))
          (fst (GetLabel texture_group))
        = Some ((case gl_texture_groups empty_config (fst (GetLabel texture_group)) of
                   Some g \<Rightarrow> g | None \<Rightarrow> []) @ entries)
      \<and> length entries = length (GetChildElements texture_group)
      \<and> (\<forall>k<length (GetChildElements texture_group).
            texture_paths (entries ! k) =
              concat (map own_texture_paths (take (Suc k) (GetChildElements texture_group)))))
   \<and> gl_texture_groups (fst (snd (GlTextureGroupTagHandler empty_config texture_group))) ''dxt1''
       = Some [\<lparr>gl_name = ''GL_A'', texture_paths = [''assets/a/*'']\<rparr>,
               \<lparr>gl_name = ''GL_A'', texture_paths = [''assets/a/*'']\<rparr>,
               \<lparr>gl_name = ''GL_B'', texture_paths = [''assets/a/*'', ''assets/b/*'']\<rparr>]"
proof -
  have "\<exists>entries.
      gl_texture_groups (fst (snd (GlTextureGroupTagHandler empty_config texture_group)))
          (fst (GetLabel texture_group))
        = Some ((case gl_texture_groups empty_config (fst (GetLabel texture_group)) of
                   Some g \<Rightarrow> g | None \<Rightarrow> []) @ entries)
      \<and> length entries = length (GetChildElements texture_group)
      \<and> (\<forall>k<length (GetChildElements texture_group).
            texture_paths (entries ! k) =
              concat (map own_texture_paths (take (Suc k) (GetChildElements texture_group))))"
    by (rule GlTextureGroupTagHandler_accumulates) (simp add: texture_group_def GetLabel_def)
  moreover have
    "gl_texture_groups (fst (snd (GlTextureGroupTagHandler empty_config texture_group))) ''dxt1''
       = Some [\<lparr>gl_name = ''GL_A'', texture_paths = [''assets/a/*'']\<rparr>,
               \<lparr>gl_name = ''GL_A'', texture_paths = [''assets/a/*'']\<rparr>,
               \<lparr>gl_name = ''GL_B'', texture_paths = [''assets/a/*'', ''assets/b/*'']\<rparr>]"
    by (simp add: GlTextureGroupTagHandler_def texture_group_def xml_eval_defs)
  ultimately show ?thesis by blast
qed

text \<open>
  C10. The artifact handler reads the version attribute with \<^verbatim>\<open>std::stoi\<close> and nothing
  guards the call. If every version attribute of the element is one that \<open>stoi\<close> reads,
  the handler returns true and appends exactly one artifact to the configuration, and it
  logs nothing but notes; otherwise the exception of \<open>stoi\<close> leaves the handler, which
  returns nothing, and no error or warning has been logged for the attribute.
\<close>

theorem ArtifactTagHandler_unguarded_stoi:
  "(if \<forall>attr\<in>set (el_attributes el). attr_name attr = ''version'' \<longrightarrow>
         (\<exists>v. stoi (attr_value attr) = Inr v)
    then \<exists>artifact d.
           ArtifactTagHandler config el =
             Inr (True, config\<lparr>artifacts := artifacts config @ [artifact]\<rparr>, d)
           \<and> (\<forall>m\<in>set d. diag_level m = Note)
    else \<exists>e d. ArtifactTagHandler config el = Inl (e, d) \<and> (\<forall>m\<in>set d. diag_level m = Note))"
proof (cases "\<forall>attr\<in>set (el_attributes el). attr_name attr = ''version'' \<longrightarrow>
         (\<exists>v. stoi (attr_value attr) = Inr v)")
  case True
  from ArtifactTagHandler_step[OF True, of config] True show ?thesis by auto
next
  case False
  from Artifact_attributes_throws[OF False, of empty_artifact None "[]"] False
  show ?thesis by (auto simp: ArtifactTagHandler_def)
qed

text \<open>An element whose version is 3 is handled; one whose version is the word beta makes
  the handler throw \<^verbatim>\<open>std::invalid_argument\<close>.\<close>

theorem ArtifactTagHandler_unguarded_stoi_witness:
  "(\<exists>artifact d.
      ArtifactTagHandler empty_config
          (artifact_element [(''name'', ''a.apk''), (''version'', ''3''), (''tag'', ''x'')]) =
        Inr (True, empty_config\<lparr>artifacts := artifacts empty_config @ [artifact]\<rparr>, d)
      \<and> (\<forall>m\<in>set d. diag_level m = Note))
   \<and> (\<exists>e d. ArtifactTagHandler empty_config (artifact_element [(''version'', ''beta'')]) = Inl (e, d)
         \<and> (\<forall>m\<in>set d. diag_level m = Note))
   \<and> ArtifactTagHandler empty_config (artifact_element [(''version'', ''beta'')])
       = Inl (invalid_argument, [])"
proof -
  have "\<exists>artifact d.
      ArtifactTagHandler empty_config
          (artifact_element [(''name'', ''a.apk''), (''version'', ''3''), (''tag'', ''x'')]) =
        Inr (True, empty_config\<lparr>artifacts := artifacts empty_config @ [artifact]\<rparr>, d)
      \<and> (\<forall>m\<in>set d. diag_level m = Note)"
    using ArtifactTagHandler_unguarded_stoi[of
        "artifact_element [(''name'', ''a.apk''), (''version'', ''3''), (''tag'', ''x'')]" empty_config]
    by (simp add: artifact_element_def stoi_def isspace_def isdigit_def digit_val_def)
  moreover have "\<exists>e d. ArtifactTagHandler empty_config (artifact_element [(''version'', ''beta'')])
        = Inl (e, d) \<and> (\<forall>m\<in>set d. diag_level m = Note)"
    using ArtifactTagHandler_unguarded_stoi[of "artifact_element [(''version'', ''beta'')]" empty_config]
    by (simp add: artifact_element_def stoi_def isspace_def isdigit_def digit_val_def)
  moreover have "ArtifactTagHandler empty_config (artifact_element [(''version'', ''beta'')])
       = Inl (invalid_argument, [])"
    by (simp add: xml_eval_defs)
  ultimately show ?thesis by blast
qed

end
